theory Spec2Isabelle
  imports Main "HOL-Library.Sublist"
begin

section \<open>The content planning agent: data model\<close>

text \<open>
  The development embeds \<^verbatim>\<open>content_agent_system.py\<close>.  A Python \<^verbatim>\<open>str\<close> is a
  \<^typ>\<open>string\<close>, read as the list of its code points; a \<^typ>\<open>char\<close> is a code point
  below 256, so strings with code points beyond Latin-1 are outside the model.
  \<^verbatim>\<open>len\<close> is \<^const>\<open>length\<close>, \<^verbatim>\<open>text[:n]\<close> is \<^const>\<open>take\<close>.

  Console output (\<^verbatim>\<open>print\<close>, \<^verbatim>\<open>print_memory_report\<close>) and the module-level
  \<^verbatim>\<open>agent\<close> status are not part of the model.  Top-level keys of the backing
  file other than the three known ones are carried along untouched by the
  source and are left out of the records below.
\<close>

datatype error =
    JSONDecodeError
  | AttributeError
  | IndexError
  | KeyError
  | TypeError
  | Unmodelled

text \<open>
  \<^const>\<open>Unmodelled\<close> marks the places where the source would go on with a value of
  a shape that no tool of the registry returns for the key read there (Python
  is untyped, the model is typed).
\<close>

record sched_entry =
  day :: string
  topic :: string

text \<open>What a tool returns: a string, a list of strings, or a list of schedule dicts.\<close>

datatype tool_result =
    Str string
  | StrList "string list"
  | Sched "sched_entry list"

text \<open>The keyword arguments built for a tool call, as stored under \<^verbatim>\<open>"args"\<close>.\<close>

datatype args =
    TopicsArgs string string string
  | DraftArgs string string string string
  | HashtagsArgs string
  | ScheduleArgs "string list"

text \<open>
  A work-log event is a dict; the keys \<^verbatim>\<open>output\<close> (the field
  \<open>log_output\<close>), \<^verbatim>\<open>reason\<close> and \<^verbatim>\<open>args\<close> are present in some events only.
\<close>

record log_entry =
  timestamp :: string
  task :: string
  tool :: string
  status :: string
  log_output :: "string option"
  reason :: "string option"
  args :: "args option"

record asset =
  asset_timestamp :: string
  asset_goal :: string
  asset_type :: string
  asset_tool :: string
  asset_data :: tool_result

record memory =
  completed_tasks :: "string list"
  work_log :: "log_entry list"
  content_library :: "asset list"

text \<open>
  The JSON object of the backing file: each of the three known keys may be
  absent.  The values under the keys are taken to have the shape the program
  writes.
\<close>

record document =
  doc_completed_tasks :: "string list option"
  doc_work_log :: "log_entry list option"
  doc_content_library :: "asset list option"

text \<open>
  The backing file as \<^verbatim>\<open>os.path.exists\<close> and \<^verbatim>\<open>json.load\<close> see it: no file,
  a file whose text is not JSON, a file holding a JSON value that is not an
  object, or a file holding an object.  \<^verbatim>\<open>json.dump\<close> followed by
  \<^verbatim>\<open>json.load\<close> gives back the value written.
\<close>

datatype backing_file =
    NoFile
  | NotJSON
  | NonObject
  | Object document

text \<open>
  What the program takes from its environment: the readings of the clock
  (\<^verbatim>\<open>now_iso\<close>, the \<open>n\<close>-th call of a run) and Python's \<^verbatim>\<open>repr\<close> of a string.
\<close>

record env =
  now :: "nat \<Rightarrow> string"
  repr :: "string \<Rightarrow> string"

text \<open>The five parameters of \<^verbatim>\<open>run_system\<close>.\<close>

record request =
  content_goal :: string
  audience :: string
  niche :: string
  tone :: string
  cta :: string

text \<open>
  The state of a run: the memory dict, the backing file, and how many clock
  readings have been taken.
\<close>

record run_state =
  mem :: memory
  disk :: backing_file
  ticks :: nat

type_synonym outputs = "string \<rightharpoonup> tool_result"

section \<open>Strings\<close>

definition nl :: string where
  "nl = [CHR 0x0A]"

text \<open>\<^verbatim>\<open>str.isspace\<close> on one code point below 256.\<close>

definition isspace :: "char \<Rightarrow> bool" where
  "isspace c =
     (let n = (of_char c :: nat)
      in (9 \<le> n \<and> n \<le> 13) \<or> (28 \<le> n \<and> n \<le> 32) \<or> n = 133 \<or> n = 160)"

text \<open>\<^verbatim>\<open>str.lower\<close> on one code point below 256.\<close>

definition lower_char :: "char \<Rightarrow> char" where
  "lower_char c =
     (let n = (of_char c :: nat)
      in if (65 \<le> n \<and> n \<le> 90) \<or> (192 \<le> n \<and> n \<le> 222 \<and> n \<noteq> 215)
         then char_of (n + 32) else c)"

definition lower :: "string \<Rightarrow> string" where
  "lower s = map lower_char s"

definition strip :: "string \<Rightarrow> string" where
  "strip s = rev (dropWhile isspace (rev (dropWhile isspace s)))"

text \<open>\<^verbatim>\<open>sub in s\<close> for strings.\<close>

fun substring_in :: "string \<Rightarrow> string \<Rightarrow> bool" where
  "substring_in sub [] = (sub = [])"
| "substring_in sub (c # cs) = (prefix sub (c # cs) \<or> substring_in sub cs)"

text \<open>\<^verbatim>\<open>", ".join(xs)\<close>\<close>

fun join_comma :: "string list \<Rightarrow> string" where
  "join_comma [] = []"
| "join_comma [x] = x"
| "join_comma (x # y # ys) = x @ '', '' @ join_comma (y # ys)"

text \<open>\<^verbatim>\<open>str(v)\<close>: the identity on a string, the \<^verbatim>\<open>repr\<close> of a list or dict otherwise.\<close>

definition str_entry :: "env \<Rightarrow> sched_entry \<Rightarrow> string" where
  "str_entry E e =
     ''{'' @ repr E ''day'' @ '': '' @ repr E (day e) @ '', ''
       @ repr E ''topic'' @ '': '' @ repr E (topic e) @ ''}''"

fun py_str :: "env \<Rightarrow> tool_result \<Rightarrow> string" where
  "py_str E (Str s) = s"
| "py_str E (StrList xs) = ''['' @ join_comma (map (repr E) xs) @ '']''"
| "py_str E (Sched es) = ''['' @ join_comma (map (str_entry E) es) @ '']''"

section \<open>Utilities\<close>

definition truncate :: "env \<Rightarrow> tool_result \<Rightarrow> nat \<Rightarrow> string" where
  "truncate E v limit =
     (let text = py_str E v
      in if length text \<le> limit then text else take limit text @ ''...(truncated)'')"

text \<open>The default of \<^verbatim>\<open>limit\<close>, used by every call in the program.\<close>

definition default_limit :: nat where
  "default_limit = 260"

definition setdefault :: "'a list option \<Rightarrow> 'a list" where
  "setdefault v = (case v of None \<Rightarrow> [] | Some xs \<Rightarrow> xs)"

definition load_memory :: "backing_file \<Rightarrow> error + memory" where
  "load_memory f =
     (case f of
        NoFile \<Rightarrow>
          Inr \<lparr>completed_tasks = [], work_log = [], content_library = []\<rparr>
      | NotJSON \<Rightarrow> Inl JSONDecodeError
      | NonObject \<Rightarrow> Inl AttributeError
      | Object d \<Rightarrow>
          Inr \<lparr>completed_tasks = setdefault (doc_completed_tasks d),
               work_log = setdefault (doc_work_log d),
               content_library = setdefault (doc_content_library d)\<rparr>)"

definition save_memory :: "memory \<Rightarrow> backing_file" where
  "save_memory m =
     Object \<lparr>doc_completed_tasks = Some (completed_tasks m),
             doc_work_log = Some (work_log m),
             doc_content_library = Some (content_library m)\<rparr>"

definition now_iso :: "env \<Rightarrow> run_state \<Rightarrow> string \<times> run_state" where
  "now_iso E s = (now E (ticks s), s\<lparr>ticks := Suc (ticks s)\<rparr>)"

definition log_event :: "run_state \<Rightarrow> log_entry \<Rightarrow> run_state" where
  "log_event s event =
     (let m = (mem s)\<lparr>work_log := work_log (mem s) @ [event]\<rparr>
      in s\<lparr>mem := m, disk := save_memory m\<rparr>)"

section \<open>Tools\<close>

definition tool_generate_topics :: "string \<Rightarrow> string \<Rightarrow> string \<Rightarrow> string list" where
  "tool_generate_topics goal aud tn =
     [goal @ '': 3 mistakes to avoid'',
      goal @ '': the step-by-step beginner roadmap'',
      goal @ '': what I wish I knew earlier'',
      goal @ '': tools and resources I actually use'',
      goal @ '': quick wins you can do this week'']"

definition tool_draft_post :: "string \<Rightarrow> string \<Rightarrow> string \<Rightarrow> string \<Rightarrow> string" where
  "tool_draft_post tp aud tn ct =
     ''Hook: '' @ tp @ nl @ nl
     @ ''For '' @ aud @ '':'' @ nl
     @ ''- Key point 1: Keep it simple and consistent.'' @ nl
     @ ''- Key point 2: Focus on one clear takeaway.'' @ nl
     @ ''- Key point 3: Take one action today.'' @ nl @ nl
     @ ''Tone: '' @ tn @ nl
     @ ''CTA: '' @ ct @ nl"

definition tool_hashtags :: "string \<Rightarrow> string list" where
  "tool_hashtags nch =
     (let base = [''#contentstrategy'', ''#creator'', ''#marketing'', ''#smallbusiness'',
                  ''#consistency''];
          base = (if substring_in ''ai'' (lower nch)
                  then base @ [''#ai'', ''#aiautomation'', ''#aigent'', ''#promptengineering'',
                               ''#futureofwork'']
                  else base);
          base = (if substring_in ''real estate'' (lower nch)
                  then base @ [''#realestate'', ''#realtor'', ''#houstonrealestate'',
                               ''#investing'', ''#homebuyers'']
                  else base)
      in take 12 base)"

text \<open>The loop of \<^verbatim>\<open>tool_schedule\<close> over \<^verbatim>\<open>enumerate(days)\<close>.\<close>

fun schedule_loop :: "nat \<Rightarrow> string list \<Rightarrow> string list \<Rightarrow> sched_entry list \<Rightarrow> sched_entry list" where
  "schedule_loop i [] topics schedule = schedule"
| "schedule_loop i (d # days) topics schedule =
     (let tp = (if i < length topics then topics ! i else ''Bonus: behind the scenes'')
      in schedule_loop (Suc i) days topics (schedule @ [\<lparr>day = d, topic = tp\<rparr>]))"

definition tool_schedule :: "string list \<Rightarrow> sched_entry list" where
  "tool_schedule topics =
     schedule_loop 0 [''Mon'', ''Tue'', ''Wed'', ''Thu'', ''Fri''] topics []"

definition tool_clarify :: "string \<Rightarrow> string" where
  "tool_clarify question = ''I need one detail: '' @ question"

text \<open>The keys of the \<^verbatim>\<open>tools\<close> registry.\<close>

definition tools :: "string list" where
  "tools = [''generate_topics'', ''draft_post'', ''hashtags'', ''schedule'', ''clarify'']"

section \<open>Workflow definition\<close>

definition workflow :: "(string \<times> string) list" where
  "workflow =
     [(''topics'', ''generate_topics''),
      (''post_1'', ''draft_post''),
      (''post_2'', ''draft_post''),
      (''post_3'', ''draft_post''),
      (''hashtags'', ''hashtags''),
      (''schedule'', ''schedule'')]"

section \<open>Decision and guardrails\<close>

definition run_key :: "string \<Rightarrow> string" where
  "run_key goal = ''run:'' @ strip (lower goal)"

definition completed_key :: "string \<Rightarrow> string \<Rightarrow> string" where
  "completed_key rk task_id = rk @ '':'' @ task_id"

definition should_skip :: "string \<Rightarrow> memory \<Rightarrow> string \<Rightarrow> bool" where
  "should_skip task_id m rk = (completed_key rk task_id \<in> set (completed_tasks m))"

definition mark_done :: "string \<Rightarrow> run_state \<Rightarrow> string \<Rightarrow> run_state" where
  "mark_done task_id s rk =
     (let m = (mem s)\<lparr>completed_tasks := completed_tasks (mem s) @ [completed_key rk task_id]\<rparr>
      in s\<lparr>mem := m, disk := save_memory m\<rparr>)"

section \<open>The run loop\<close>

text \<open>\<^verbatim>\<open>{"post_1": 0, "post_2": 1, "post_3": 2}.get(task_id, 0)\<close>\<close>

definition topic_index :: "string \<Rightarrow> nat" where
  "topic_index task_id =
     (if task_id = ''post_1'' then 0
      else if task_id = ''post_2'' then 1
      else if task_id = ''post_3'' then 2
      else 0)"

text \<open>
  The clarify path, shared by the goal guardrail and the two dependency
  checks: call \<^verbatim>\<open>tools["clarify"]\<close> and log the event.
\<close>

definition clarify_step :: "env \<Rightarrow> string \<Rightarrow> string \<Rightarrow> run_state \<Rightarrow> run_state" where
  "clarify_step E task_id question s =
     (let result = tool_clarify question;
          (ts, s) = now_iso E s
      in log_event s
           \<lparr>timestamp = ts, task = task_id, tool = ''clarify'', status = ''clarify'',
            log_output = Some (truncate E (Str result) default_limit),
            reason = None, args = None\<rparr>)"

text \<open>
  Building the arguments of a step ends in one of three ways: the arguments,
  a question for the clarify path (\<^verbatim>\<open>continue\<close>), or an exception.
\<close>

datatype resolution =
    Ready args
  | Clarify string
  | Raise error

definition build_args :: "request \<Rightarrow> string \<Rightarrow> string \<Rightarrow> outputs \<Rightarrow> resolution" where
  "build_args rq task_id tool_name outs =
     (if tool_name = ''generate_topics'' then
        Ready (TopicsArgs (content_goal rq) (audience rq) (tone rq))
      else if tool_name = ''draft_post'' then
        (case outs ''topics'' of
           None \<Rightarrow> Clarify ''I need topics first. Run generate_topics.''
         | Some (StrList ts) \<Rightarrow>
             if topic_index task_id < length ts
             then Ready (DraftArgs (ts ! topic_index task_id) (audience rq) (tone rq) (cta rq))
             else Raise IndexError
         | Some _ \<Rightarrow> Raise Unmodelled)
      else if tool_name = ''hashtags'' then
        Ready (HashtagsArgs (niche rq))
      else if tool_name = ''schedule'' then
        (case outs ''topics'' of
           None \<Rightarrow> Clarify ''I need topics first to build a schedule.''
         | Some (StrList ts) \<Rightarrow> Ready (ScheduleArgs ts)
         | Some _ \<Rightarrow> Raise Unmodelled)
      else if tool_name \<in> set tools then Raise TypeError
      else Raise KeyError)"

text \<open>\<^verbatim>\<open>tools[tool_name](**args)\<close>\<close>

fun call_tool :: "args \<Rightarrow> tool_result" where
  "call_tool (TopicsArgs g a t) = StrList (tool_generate_topics g a t)"
| "call_tool (DraftArgs tp a t c) = Str (tool_draft_post tp a t c)"
| "call_tool (HashtagsArgs n) = StrList (tool_hashtags n)"
| "call_tool (ScheduleArgs ts) = Sched (tool_schedule ts)"

text \<open>The body of the loop \<^verbatim>\<open>for step in workflow\<close>.\<close>

fun run_step ::
  "env \<Rightarrow> request \<Rightarrow> string \<Rightarrow> string \<times> string \<Rightarrow> run_state \<times> outputs
     \<Rightarrow> error + run_state \<times> outputs" where
  "run_step E rq rk (task_id, tool_name) (s, outs) =
     (if should_skip task_id (mem s) rk then
        (let (ts, s) = now_iso E s
         in Inr (log_event s
                   \<lparr>timestamp = ts, task = task_id, tool = tool_name, status = ''skipped'',
                    log_output = None,
                    reason = Some ''Already completed for this goal'', args = None\<rparr>,
                 outs))
      else
        (case build_args rq task_id tool_name outs of
           Raise e \<Rightarrow> Inl e
         | Clarify question \<Rightarrow> Inr (clarify_step E task_id question s, outs)
         | Ready a \<Rightarrow>
             (let result = call_tool a;
                  outs = outs(task_id \<mapsto> result);
                  (ts, s) = now_iso E s;
                  s = s\<lparr>mem := (mem s)\<lparr>content_library := content_library (mem s) @
                         [\<lparr>asset_timestamp = ts, asset_goal = content_goal rq,
                           asset_type = task_id, asset_tool = tool_name,
                           asset_data = result\<rparr>]\<rparr>\<rparr>;
                  (ts, s) = now_iso E s;
                  s = log_event s
                        \<lparr>timestamp = ts, task = task_id, tool = tool_name,
                         status = ''completed'',
                         log_output = Some (truncate E result default_limit),
                         reason = None, args = Some a\<rparr>;
                  s = mark_done task_id s rk
              in Inr (s, outs))))"

fun run_loop ::
  "env \<Rightarrow> request \<Rightarrow> string \<Rightarrow> (string \<times> string) list \<Rightarrow> run_state \<times> outputs
     \<Rightarrow> error + run_state \<times> outputs" where
  "run_loop E rq rk [] so = Inr so"
| "run_loop E rq rk (step # steps) so =
     (case run_step E rq rk step so of
        Inl e \<Rightarrow> Inl e
      | Inr so' \<Rightarrow> run_loop E rq rk steps so')"

text \<open>
  \<^verbatim>\<open>run_system\<close>: load the memory, stop at the goal guardrail or walk the
  workflow.  The result is the state the run ends in, or the exception it
  raised.
\<close>

definition run_system :: "env \<Rightarrow> request \<Rightarrow> backing_file \<Rightarrow> error + run_state" where
  "run_system E rq f =
     (case load_memory f of
        Inl e \<Rightarrow> Inl e
      | Inr m \<Rightarrow>
          (let s = \<lparr>mem = m, disk = f, ticks = 0\<rparr>;
               rk = run_key (content_goal rq)
           in if strip (content_goal rq) = [] then
                Inr (clarify_step E ''clarify_goal'' ''What is the content goal?'' s)
              else
                (case run_loop E rq rk workflow (s, Map.empty) of
                   Inl e \<Rightarrow> Inl e
                 | Inr (s', outs) \<Rightarrow> Inr s')))"

text \<open>
  Successive invocations of the program, each with its own environment and
  parameters, each starting from the file the previous one left.
\<close>

fun run_many :: "(env \<times> request) list \<Rightarrow> backing_file \<Rightarrow> error + backing_file" where
  "run_many [] f = Inr f"
| "run_many ((E, rq) # runs) f =
     (case run_system E rq f of
        Inl e \<Rightarrow> Inl e
      | Inr s \<Rightarrow> run_many runs (disk s))"

section \<open>Observations and sample inputs\<close>

text \<open>What a run added to the three lists of the memory it started from.\<close>

definition new_entries :: "memory \<Rightarrow> memory \<Rightarrow> log_entry list" where
  "new_entries m m' = drop (length (work_log m)) (work_log m')"

definition new_assets :: "memory \<Rightarrow> memory \<Rightarrow> asset list" where
  "new_assets m m' = drop (length (content_library m)) (content_library m')"

definition new_keys :: "memory \<Rightarrow> memory \<Rightarrow> string list" where
  "new_keys m m' = drop (length (completed_tasks m)) (completed_tasks m')"

definition is_completed :: "log_entry \<Rightarrow> bool" where
  "is_completed e = (status e = ''completed'')"

definition empty_memory :: memory where
  "empty_memory = \<lparr>completed_tasks = [], work_log = [], content_library = []\<rparr>"

text \<open>A clock, a \<^verbatim>\<open>repr\<close> and the parameters used in the concrete runs below.\<close>

definition sample_now :: "nat \<Rightarrow> string" where
  "sample_now n = ''2025-01-01T09:00:00''"

definition sample_repr :: "string \<Rightarrow> string" where
  "sample_repr s = [CHR 0x27] @ s @ [CHR 0x27]"

definition sample_env :: env where
  "sample_env = \<lparr>now = sample_now, repr = sample_repr\<rparr>"

definition sample_request :: request where
  "sample_request =
     \<lparr>content_goal = ''Grow my newsletter'', audience = ''busy founders'', niche = ''AI'',
      tone = ''direct'', cta = ''Subscribe''\<rparr>"

definition blank_request :: request where
  "blank_request = sample_request\<lparr>content_goal := ''   ''\<rparr>"

text \<open>
  The concrete runs used below: the first run of the sample request on a
  fresh store, the run repeated on the file the first one left, and a store
  that holds the completion key of the \<^verbatim>\<open>topics\<close> step only, with one entry in
  its log.
\<close>

definition first_run :: run_state where
  "first_run = projr (run_system sample_env sample_request NoFile)"

definition second_run :: run_state where
  "second_run = projr (run_system sample_env sample_request (disk first_run))"

definition stored_entry :: log_entry where
  "stored_entry =
     \<lparr>timestamp = ''2024-12-31T18:00:00'', task = ''topics'', tool = ''generate_topics'',
      status = ''skipped'', log_output = None,
      reason = Some ''Already completed for this goal'', args = None\<rparr>"

definition stored_memory :: memory where
  "stored_memory =
     \<lparr>completed_tasks = [''run:grow my newsletter:topics''], work_log = [stored_entry],
      content_library = []\<rparr>"

definition stored_file :: backing_file where
  "stored_file =
     Object \<lparr>doc_completed_tasks = Some [''run:grow my newsletter:topics''],
             doc_work_log = Some [stored_entry], doc_content_library = None\<rparr>"

definition stored_state :: run_state where
  "stored_state = \<lparr>mem = stored_memory, disk = stored_file, ticks = 0\<rparr>"

definition stored_loop :: "error + run_state \<times> outputs" where
  "stored_loop =
     run_loop sample_env sample_request (run_key (content_goal sample_request)) workflow
       (stored_state, Map.empty)"

definition two_runs :: "(env \<times> request) list" where
  "two_runs = [(sample_env, sample_request), (sample_env, blank_request)]"

text \<open>
  Two conditions used to show that the loop never raises: the entry of the
  outputs under \<^verbatim>\<open>topics\<close>, when there is one, is a list of five strings;
  and a step names one of the four tools the loop builds arguments for, the
  step \<^verbatim>\<open>topics\<close> naming \<^verbatim>\<open>generate_topics\<close>.
\<close>

definition topics_ok :: "outputs \<Rightarrow> bool" where
  "topics_ok outs =
     (case outs ''topics'' of
        None \<Rightarrow> True
      | Some (StrList ts) \<Rightarrow> length ts = 5
      | Some _ \<Rightarrow> False)"

definition known_step :: "string \<times> string \<Rightarrow> bool" where
  "known_step st =
     (if fst st = ''topics'' then snd st = ''generate_topics''
      else snd st \<in> set [''generate_topics'', ''draft_post'', ''hashtags'', ''schedule''])"

section \<open>Basic facts\<close>

lemma load_save: "load_memory (save_memory m) = Inr m"
  by (simp add: load_memory_def save_memory_def setdefault_def)

lemma load_NoFile: "load_memory NoFile = Inr empty_memory"
  by (simp add: load_memory_def empty_memory_def)

lemma strip_empty_iff: "strip s = [] \<longleftrightarrow> (\<forall>c \<in> set s. isspace c)"
proof -
  have "strip s = [] \<longleftrightarrow> (\<forall>c \<in> set (dropWhile isspace s). isspace c)"
    by (simp add: strip_def)
  also have "\<dots> \<longleftrightarrow> dropWhile isspace s = []"
    using hd_dropWhile [of isspace s]
    by (cases "dropWhile isspace s") (auto simp del: dropWhile_eq_Nil_conv)
  finally show ?thesis by simp
qed

lemma mem_log_event [simp]:
  "mem (log_event s ev) = (mem s)\<lparr>work_log := work_log (mem s) @ [ev]\<rparr>"
  by (simp add: log_event_def Let_def)

lemma disk_log_event [simp]: "disk (log_event s ev) = save_memory (mem (log_event s ev))"
  by (simp add: log_event_def Let_def)

lemma mem_mark_done [simp]:
  "mem (mark_done t s rk) =
     (mem s)\<lparr>completed_tasks := completed_tasks (mem s) @ [completed_key rk t]\<rparr>"
  by (simp add: mark_done_def Let_def)

lemma disk_mark_done [simp]: "disk (mark_done t s rk) = save_memory (mem (mark_done t s rk))"
  by (simp add: mark_done_def Let_def)

lemma mem_clarify_step:
  "mem (clarify_step E t q s) =
     (mem s)\<lparr>work_log := work_log (mem s) @
        [\<lparr>timestamp = now E (ticks s), task = t, tool = ''clarify'', status = ''clarify'',
          log_output = Some (truncate E (Str (tool_clarify q)) default_limit),
          reason = None, args = None\<rparr>]\<rparr>"
  by (simp add: clarify_step_def now_iso_def Let_def)

lemma disk_clarify_step: "disk (clarify_step E t q s) = save_memory (mem (clarify_step E t q s))"
  by (simp add: clarify_step_def now_iso_def Let_def)

section \<open>Truncation of stored previews\<close>

text \<open>
  C5.  For every string \<open>s\<close>: if \<open>s\<close> is longer than the preview limit (260, the
  default of \<^verbatim>\<open>truncate\<close>), the preview is the first 260 characters of \<open>s\<close>
  followed by the marker \<^verbatim>\<open>...(truncated)\<close>; if \<open>s\<close> is at or under the limit,
  the preview is \<open>s\<close> itself.
\<close>

theorem truncate_law:
  "(default_limit < length s \<longrightarrow>
      truncate E (Str s) default_limit = take default_limit s @ ''...(truncated)'')
   \<and> (length s \<le> default_limit \<longrightarrow> truncate E (Str s) default_limit = s)
   \<and> default_limit = 260"
  by (simp add: truncate_def default_limit_def)

theorem truncate_law_witness:
  "default_limit < length (replicate 261 CHR ''a'')
   \<and> truncate sample_env (Str (replicate 261 CHR ''a'')) default_limit
       = replicate 260 CHR ''a'' @ ''...(truncated)''
   \<and> length ''Hook'' \<le> default_limit
   \<and> truncate sample_env (Str ''Hook'') default_limit = ''Hook''"
proof -
  have d: "default_limit = 260"
    by (simp add: default_limit_def)
  have len: "length (replicate 261 CHR ''a'') = 261"
    by (simp only: length_replicate)
  have tk: "take 260 (replicate 261 CHR ''a'') = replicate 260 CHR ''a''"
    by (simp only: take_replicate) simp
  have h1: "default_limit < length (replicate 261 CHR ''a'')"
    unfolding d len by simp
  have h2: "length ''Hook'' \<le> default_limit"
    unfolding d by simp
  from truncate_law [of "replicate 261 CHR ''a''" sample_env] h1
  have c1: "truncate sample_env (Str (replicate 261 CHR ''a'')) default_limit
              = replicate 260 CHR ''a'' @ ''...(truncated)''"
    unfolding d tk by blast
  from truncate_law [of "''Hook''" sample_env] h2
  have c2: "truncate sample_env (Str ''Hook'') default_limit = ''Hook''"
    by blast
  from h1 c1 h2 c2 show ?thesis by blast
qed

section \<open>The run key\<close>

lemma run_key_example: "run_key ''Build Trust'' = run_key ''  build trust  ''"
  by code_simp

text \<open>
  C6.  The run key is a function of the goal alone, the goal lower-cased and
  stripped behind the prefix \<^verbatim>\<open>run:\<close>; the goals \<^verbatim>\<open>Build Trust\<close> and
  \<^verbatim>\<open>  build trust  \<close> have the same run key, and therefore the same completion
  key for every step.
\<close>

theorem run_key_normalization:
  "run_key goal = ''run:'' @ strip (lower goal)
   \<and> run_key ''Build Trust'' = run_key ''  build trust  ''
   \<and> (\<forall>task_id. completed_key (run_key ''Build Trust'') task_id
                  = completed_key (run_key ''  build trust  '') task_id)"
  by (simp add: run_key_example) (simp add: run_key_def)

section \<open>Loading the memory\<close>

text \<open>
  C8.  \<^verbatim>\<open>load_memory\<close> raises when the backing file exists and does not hold a
  well-formed JSON object: \<^verbatim>\<open>JSONDecodeError\<close> when the text does not parse,
  \<^verbatim>\<open>AttributeError\<close> (from \<^verbatim>\<open>setdefault\<close>) when it parses to a value that is
  not an object.  Otherwise (no file, or a file holding an object) it returns
  a memory in which each of the three fields is the empty list when the key
  is absent, and the value of the file when the key is present.
\<close>

theorem load_memory_cases:
  "load_memory NotJSON = Inl JSONDecodeError
   \<and> load_memory NonObject = Inl AttributeError
   \<and> load_memory NoFile = Inr \<lparr>completed_tasks = [], work_log = [], content_library = []\<rparr>
   \<and> (\<exists>m. load_memory (Object d) = Inr m
         \<and> completed_tasks m = (case doc_completed_tasks d of None \<Rightarrow> [] | Some ks \<Rightarrow> ks)
         \<and> work_log m = (case doc_work_log d of None \<Rightarrow> [] | Some es \<Rightarrow> es)
         \<and> content_library m = (case doc_content_library d of None \<Rightarrow> [] | Some as \<Rightarrow> as))"
  by (simp add: load_memory_def setdefault_def)

section \<open>The goal guardrail\<close>

text \<open>
  C4.  If the goal is empty or consists only of whitespace (and the memory
  loads), the run is the clarify path alone: it appends exactly one log
  entry, with status \<^verbatim>\<open>clarify\<close> and the task \<^verbatim>\<open>clarify_goal\<close>, which is
  not a step of the workflow; it appends no asset and no completion key, and
  the file holds the memory the run ended with.
\<close>

theorem blank_goal_clarifies:
  assumes "\<forall>c \<in> set (content_goal rq). isspace c"
      and "load_memory f = Inr m"
  shows "\<exists>s' e. run_system E rq f = Inr s'
           \<and> s' = clarify_step E ''clarify_goal'' ''What is the content goal?''
                    \<lparr>mem = m, disk = f, ticks = 0\<rparr>
           \<and> work_log (mem s') = work_log m @ [e]
           \<and> status e = ''clarify'' \<and> task e = ''clarify_goal''
           \<and> task e \<notin> set (map fst workflow)
           \<and> content_library (mem s') = content_library m
           \<and> completed_tasks (mem s') = completed_tasks m
           \<and> load_memory (disk s') = Inr (mem s')"
proof -
  have "strip (content_goal rq) = []"
    using assms(1) by (simp add: strip_empty_iff)
  then show ?thesis
    using assms(2)
    by (simp add: run_system_def mem_clarify_step disk_clarify_step load_save workflow_def)
qed

theorem blank_goal_clarifies_witness:
  "list_all isspace (content_goal blank_request)
   \<and> load_memory NoFile = Inr empty_memory
   \<and> map status (work_log (mem (projr (run_system sample_env blank_request NoFile))))
       = [''clarify'']
   \<and> content_library (mem (projr (run_system sample_env blank_request NoFile))) = []
   \<and> completed_tasks (mem (projr (run_system sample_env blank_request NoFile))) = []"
proof -
  have h1: "\<forall>c \<in> set (content_goal blank_request). isspace c"
    by (simp add: blank_request_def isspace_def)
  from blank_goal_clarifies [OF h1 load_NoFile, of sample_env] h1 load_NoFile
  show ?thesis
    by (auto simp: empty_memory_def list_all_iff)
qed

section \<open>One step of the loop\<close>

lemma run_step_skipped:
  assumes "should_skip t (mem s) rk"
  shows "\<exists>s' e. run_step E rq rk (t, tn) (s, outs) = Inr (s', outs)
           \<and> work_log (mem s') = work_log (mem s) @ [e]
           \<and> task e = t \<and> tool e = tn \<and> status e = ''skipped''
           \<and> completed_tasks (mem s') = completed_tasks (mem s)
           \<and> content_library (mem s') = content_library (mem s)
           \<and> disk s' = save_memory (mem s')"
  using assms by (simp add: now_iso_def)




lemma run_step_clarified:
  assumes "\<not> should_skip t (mem s) rk" and "build_args rq t tn outs = Clarify q"
  shows "\<exists>s' e. run_step E rq rk (t, tn) (s, outs) = Inr (s', outs)
           \<and> work_log (mem s') = work_log (mem s) @ [e]
           \<and> task e = t \<and> tool e = ''clarify'' \<and> status e = ''clarify''
           \<and> completed_tasks (mem s') = completed_tasks (mem s)
           \<and> content_library (mem s') = content_library (mem s)
           \<and> disk s' = save_memory (mem s')"
  using assms by (simp add: mem_clarify_step disk_clarify_step)




lemma run_step_completed:
  assumes "\<not> should_skip t (mem s) rk" and "build_args rq t tn outs = Ready a"
  shows "\<exists>s' e x. run_step E rq rk (t, tn) (s, outs) = Inr (s', outs(t \<mapsto> call_tool a))
           \<and> work_log (mem s') = work_log (mem s) @ [e]
           \<and> task e = t \<and> tool e = tn \<and> status e = ''completed'' \<and> args e = Some a
           \<and> log_output e = Some (truncate E (call_tool a) default_limit)
           \<and> completed_tasks (mem s') = completed_tasks (mem s) @ [completed_key rk t]
           \<and> content_library (mem s') = content_library (mem s) @ [x]
           \<and> asset_type x = t \<and> asset_tool x = tn \<and> asset_goal x = content_goal rq
           \<and> asset_data x = call_tool a
           \<and> disk s' = save_memory (mem s')"
  using assms by (simp add: now_iso_def Let_def)




lemma run_step_raises:
  assumes "\<not> should_skip t (mem s) rk" and "build_args rq t tn outs = Raise err"
  shows "run_step E rq rk (t, tn) (s, outs) = Inl err"
  using assms by simp




lemma build_args_generate:
  "build_args rq t ''generate_topics'' outs
     = Ready (TopicsArgs (content_goal rq) (audience rq) (tone rq))"
  by (simp add: build_args_def)

lemma build_args_hashtags:
  "build_args rq t ''hashtags'' outs = Ready (HashtagsArgs (niche rq))"
  by (simp add: build_args_def)

lemma build_args_draft_none:
  "outs ''topics'' = None \<Longrightarrow>
   build_args rq t ''draft_post'' outs = Clarify ''I need topics first. Run generate_topics.''"
  by (simp add: build_args_def)

lemma build_args_draft_some:
  "outs ''topics'' = Some (StrList ts) \<Longrightarrow> topic_index t < length ts \<Longrightarrow>
   build_args rq t ''draft_post'' outs
     = Ready (DraftArgs (ts ! topic_index t) (audience rq) (tone rq) (cta rq))"
  by (simp add: build_args_def)

lemma build_args_schedule_none:
  "outs ''topics'' = None \<Longrightarrow>
   build_args rq t ''schedule'' outs = Clarify ''I need topics first to build a schedule.''"
  by (simp add: build_args_def)

lemma build_args_schedule_some:
  "outs ''topics'' = Some (StrList ts) \<Longrightarrow>
   build_args rq t ''schedule'' outs = Ready (ScheduleArgs ts)"
  by (simp add: build_args_def)

lemma topic_index_le: "topic_index t \<le> 2"
  by (simp add: topic_index_def)

lemma length_generate_topics: "length (tool_generate_topics g a tn) = 5"
  by (simp add: tool_generate_topics_def)

lemma topics_ok_cases:
  "topics_ok outs \<longleftrightarrow>
     outs ''topics'' = None \<or> (\<exists>ts. outs ''topics'' = Some (StrList ts) \<and> length ts = 5)"
  by (auto simp: topics_ok_def split: option.splits tool_result.splits)

lemma topics_ok_upd_other: "t \<noteq> ''topics'' \<Longrightarrow> topics_ok (outs(t \<mapsto> v)) = topics_ok outs"
  by (simp add: topics_ok_def)

lemma topics_ok_upd_topics: 
  "topics_ok (outs(''topics'' \<mapsto> StrList (tool_generate_topics g a tn)))"
  by (simp add: topics_ok_def length_generate_topics)

lemma build_args_known:
  assumes k: "known_step (t, tn)" and ok: "topics_ok outs"
  shows "(\<exists>q. build_args rq t tn outs = Clarify q \<and> outs ''topics'' = None)
         \<or> (\<exists>a. build_args rq t tn outs = Ready a \<and> topics_ok (outs(t \<mapsto> call_tool a)))"
proof (cases "t = ''topics''")
  case True
  with k have "tn = ''generate_topics''" by (simp add: known_step_def)
  with True show ?thesis
    by (simp add: build_args_generate topics_ok_upd_topics)
next
  case False
  with k have "tn = ''generate_topics'' \<or> tn = ''draft_post'' \<or> tn = ''hashtags'' \<or> tn = ''schedule''"
    by (simp add: known_step_def)
  then consider (g) "tn = ''generate_topics''" | (d) "tn = ''draft_post''"
    | (h) "tn = ''hashtags''" | (s) "tn = ''schedule''" by blast
  then show ?thesis
  proof cases
    case g
    with False ok show ?thesis by (simp add: build_args_generate topics_ok_upd_other)
  next
    case h
    with False ok show ?thesis by (simp add: build_args_hashtags topics_ok_upd_other)
  next
    case d
    from ok consider "outs ''topics'' = None"
      | ts where "outs ''topics'' = Some (StrList ts)" "length ts = 5"
      by (auto simp: topics_ok_cases)
    then show ?thesis
    proof cases
      case 1
      with d show ?thesis by (simp add: build_args_draft_none)
    next
      case 2
      have "topic_index t < length ts" using topic_index_le [of t] 2(2) by simp
      with 2 d False ok show ?thesis
        by (simp add: build_args_draft_some topics_ok_upd_other)
    qed
  next
    case s
    from ok consider "outs ''topics'' = None"
      | ts where "outs ''topics'' = Some (StrList ts)" "length ts = 5"
      by (auto simp: topics_ok_cases)
    then show ?thesis
    proof cases
      case 1
      with s show ?thesis by (simp add: build_args_schedule_none)
    next
      case 2
      with s False ok show ?thesis
        by (simp add: build_args_schedule_some topics_ok_upd_other)
    qed
  qed
qed




lemma run_step_known:
  assumes k: "known_step (t, tn)" and ok: "topics_ok outs"
  shows "\<exists>s' outs'. run_step E rq rk (t, tn) (s, outs) = Inr (s', outs') \<and> topics_ok outs'"
proof (cases "should_skip t (mem s) rk")
  case True
  from run_step_skipped [OF True, where E=E and rq=rq and tn=tn and outs=outs] ok show ?thesis by blast
next
  case False
  from build_args_known [OF k ok, where rq=rq]
  consider q where "build_args rq t tn outs = Clarify q"
    | a where "build_args rq t tn outs = Ready a" "topics_ok (outs(t \<mapsto> call_tool a))"
    by blast
  then show ?thesis
  proof cases
    case 1
    from run_step_clarified [OF False 1, where E=E] ok show ?thesis by blast
  next
    case 2
    from run_step_completed [OF False 2(1), where E=E] 2(2) show ?thesis by blast
  qed
qed

lemma run_loop_known:
  assumes "\<forall>st \<in> set steps. known_step st" and "topics_ok outs"
  shows "\<exists>s' outs'. run_loop E rq rk steps (s, outs) = Inr (s', outs')"
  using assms
proof (induction steps arbitrary: s outs)
  case Nil
  then show ?case by simp
next
  case (Cons st steps)
  obtain t tn where st: "st = (t, tn)" by (cases st)
  from Cons.prems have k: "known_step (t, tn)" by (simp add: st)
  from run_step_known [OF k Cons.prems(2), where E=E and rq=rq and rk=rk and s=s]
  obtain s1 outs1 where one: "run_step E rq rk (t, tn) (s, outs) = Inr (s1, outs1)"
    and ok1: "topics_ok outs1" by blast
  from Cons.IH [OF _ ok1, where s=s1] Cons.prems(1)
  obtain s' outs' where "run_loop E rq rk steps (s1, outs1) = Inr (s', outs')" by auto
  with one show ?case by (simp add: st)
qed

lemma workflow_known: "\<forall>st \<in> set workflow. known_step st"
  by (simp add: workflow_def known_step_def)

lemma run_step_shape:
  assumes "run_step E rq rk (t, tn) (s, outs) = Inr (s', outs')"
  shows "\<exists>e. work_log (mem s') = work_log (mem s) @ [e] \<and> task e = t \<and>
             disk s' = save_memory (mem s') \<and>
             (if status e = ''completed''
              then (\<exists>a. content_library (mem s') = content_library (mem s) @ [a] \<and> asset_type a = t)
                   \<and> completed_tasks (mem s') = completed_tasks (mem s) @ [completed_key rk t]
                   \<and> completed_key rk t \<notin> set (completed_tasks (mem s))
              else content_library (mem s') = content_library (mem s)
                   \<and> completed_tasks (mem s') = completed_tasks (mem s))"
proof (cases "should_skip t (mem s) rk")
  case True
  from run_step_skipped [OF True, where E=E and rq=rq and tn=tn and outs=outs] assms show ?thesis by auto
next
  case False
  show ?thesis
  proof (cases "build_args rq t tn outs")
    case (Ready a)
    from run_step_completed [OF False Ready, where E=E] assms False show ?thesis
      by (auto simp: should_skip_def)
  next
    case (Clarify q)
    from run_step_clarified [OF False Clarify, where E=E] assms show ?thesis by auto
  next
    case (Raise err)
    from run_step_raises [OF False Raise, where E=E] assms show ?thesis by simp
  qed
qed




lemma run_loop_shape:
  assumes "run_loop E rq rk steps (s, outs) = Inr (s', outs')"
  shows "\<exists>es as.
           work_log (mem s') = work_log (mem s) @ es \<and> map task es = map fst steps \<and>
           content_library (mem s') = content_library (mem s) @ as \<and>
           map asset_type as = map task (filter is_completed es) \<and>
           completed_tasks (mem s') = completed_tasks (mem s)
              @ map (\<lambda>e. completed_key rk (task e)) (filter is_completed es) \<and>
           (\<forall>e \<in> set es. is_completed e \<longrightarrow>
              completed_key rk (task e) \<notin> set (completed_tasks (mem s))) \<and>
           (steps \<noteq> [] \<longrightarrow> disk s' = save_memory (mem s'))"
  using assms
proof (induction steps arbitrary: s outs)
  case Nil
  then show ?case by simp
next
  case (Cons step steps)
  obtain t tn where st: "step = (t, tn)" by (cases step)
  from Cons.prems obtain s1 outs1 where
    one: "run_step E rq rk (t, tn) (s, outs) = Inr (s1, outs1)" and
    rest: "run_loop E rq rk steps (s1, outs1) = Inr (s', outs')"
    by (auto simp: st split: sum.splits)
  from run_step_shape [OF one] obtain e where e:
    "work_log (mem s1) = work_log (mem s) @ [e]" "task e = t" "disk s1 = save_memory (mem s1)"
    "status e = ''completed'' \<Longrightarrow>
       (\<exists>a. content_library (mem s1) = content_library (mem s) @ [a] \<and> asset_type a = t)
       \<and> completed_tasks (mem s1) = completed_tasks (mem s) @ [completed_key rk t]
       \<and> completed_key rk t \<notin> set (completed_tasks (mem s))"
    "status e \<noteq> ''completed'' \<Longrightarrow>
       content_library (mem s1) = content_library (mem s)
       \<and> completed_tasks (mem s1) = completed_tasks (mem s)"
    by (auto split: if_splits)
  from Cons.IH [OF rest] obtain es as where r:
    "work_log (mem s') = work_log (mem s1) @ es" "map task es = map fst steps"
    "content_library (mem s') = content_library (mem s1) @ as"
    "map asset_type as = map task (filter is_completed es)"
    "completed_tasks (mem s') = completed_tasks (mem s1)
        @ map (\<lambda>e. completed_key rk (task e)) (filter is_completed es)"
    "\<forall>e \<in> set es. is_completed e \<longrightarrow>
        completed_key rk (task e) \<notin> set (completed_tasks (mem s1))"
    "steps \<noteq> [] \<longrightarrow> disk s' = save_memory (mem s')"
    by blast
  have d: "disk s' = save_memory (mem s')"
  proof (cases steps)
    case Nil
    with rest e(3) show ?thesis by simp
  next
    case (Cons a list)
    with r(7) show ?thesis by simp
  qed
  show ?case
  proof (cases "status e = ''completed''")
    case True
    from e(4) [OF True] obtain a where a:
      "content_library (mem s1) = content_library (mem s) @ [a]" "asset_type a = t"
      "completed_tasks (mem s1) = completed_tasks (mem s) @ [completed_key rk t]"
      "completed_key rk t \<notin> set (completed_tasks (mem s))"
      by blast
    have "work_log (mem s') = work_log (mem s) @ (e # es)"
      using e(1) r(1) by simp
    moreover have "map task (e # es) = map fst (step # steps)"
      using e(2) r(2) by (simp add: st)
    moreover have "content_library (mem s') = content_library (mem s) @ (a # as)"
      using a(1) r(3) by simp
    moreover have "map asset_type (a # as) = map task (filter is_completed (e # es))"
      using True a(2) e(2) r(4) by (simp add: is_completed_def)
    moreover have "completed_tasks (mem s') = completed_tasks (mem s)
              @ map (\<lambda>e. completed_key rk (task e)) (filter is_completed (e # es))"
      using True a(3) e(2) r(5) by (simp add: is_completed_def)
    moreover have "\<forall>x \<in> set (e # es). is_completed x \<longrightarrow>
              completed_key rk (task x) \<notin> set (completed_tasks (mem s))"
      using a(3,4) e(2) r(6) by simp
    ultimately show ?thesis using d by blast
  next
    case False
    from e(5) [OF False] have same:
      "content_library (mem s1) = content_library (mem s)"
      "completed_tasks (mem s1) = completed_tasks (mem s)" by simp_all
    have "work_log (mem s') = work_log (mem s) @ (e # es)"
      using e(1) r(1) by simp
    moreover have "map task (e # es) = map fst (step # steps)"
      using e(2) r(2) by (simp add: st)
    moreover have "content_library (mem s') = content_library (mem s) @ as"
      using same(1) r(3) by simp
    moreover have "map asset_type as = map task (filter is_completed (e # es))"
      using False r(4) by (simp add: is_completed_def)
    moreover have "completed_tasks (mem s') = completed_tasks (mem s)
              @ map (\<lambda>e. completed_key rk (task e)) (filter is_completed (e # es))"
      using False same(2) r(5) by (simp add: is_completed_def)
    moreover have "\<forall>x \<in> set (e # es). is_completed x \<longrightarrow>
              completed_key rk (task x) \<notin> set (completed_tasks (mem s))"
      using False same(2) r(6) by (simp add: is_completed_def)
    ultimately show ?thesis using d by blast
  qed
qed

lemma run_loop_all_skipped:
  assumes "\<forall>st \<in> set steps. should_skip (fst st) (mem s) rk"
  shows "\<exists>s' es. run_loop E rq rk steps (s, outs) = Inr (s', outs)
           \<and> work_log (mem s') = work_log (mem s) @ es
           \<and> map task es = map fst steps
           \<and> (\<forall>e \<in> set es. status e = ''skipped'')
           \<and> completed_tasks (mem s') = completed_tasks (mem s)
           \<and> content_library (mem s') = content_library (mem s)
           \<and> (steps \<noteq> [] \<longrightarrow> disk s' = save_memory (mem s'))"
  using assms
proof (induction steps arbitrary: s)
  case Nil
  then show ?case by simp
next
  case (Cons step steps)
  obtain t tn where st: "step = (t, tn)" by (cases step)
  from Cons.prems have sk: "should_skip t (mem s) rk" by (simp add: st)
  from run_step_skipped [OF sk, where E=E and rq=rq and tn=tn and outs=outs]
  obtain s1 e where one: "run_step E rq rk (t, tn) (s, outs) = Inr (s1, outs)"
    and e: "work_log (mem s1) = work_log (mem s) @ [e]" "task e = t" "status e = ''skipped''"
    and same: "completed_tasks (mem s1) = completed_tasks (mem s)"
              "content_library (mem s1) = content_library (mem s)"
    and d1: "disk s1 = save_memory (mem s1)"
    by blast
  have "\<forall>st \<in> set steps. should_skip (fst st) (mem s1) rk"
    using Cons.prems same(1) by (simp add: should_skip_def)
  from Cons.IH [OF this] obtain s' es where
    rest: "run_loop E rq rk steps (s1, outs) = Inr (s', outs)"
    and r: "work_log (mem s') = work_log (mem s1) @ es" "map task es = map fst steps"
      "\<forall>e \<in> set es. status e = ''skipped''"
      "completed_tasks (mem s') = completed_tasks (mem s1)"
      "content_library (mem s') = content_library (mem s1)"
      "steps \<noteq> [] \<longrightarrow> disk s' = save_memory (mem s')"
    by blast
  have d: "disk s' = save_memory (mem s')"
  proof (cases steps)
    case Nil
    with rest d1 show ?thesis by simp
  next
    case (Cons a list)
    with r(6) show ?thesis by simp
  qed
  have "run_loop E rq rk (step # steps) (s, outs) = Inr (s', outs)"
    using one rest by (simp add: st)
  moreover have "work_log (mem s') = work_log (mem s) @ (e # es)"
    using e(1) r(1) by simp
  moreover have "map task (e # es) = map fst (step # steps)"
    using e(2) r(2) by (simp add: st)
  moreover have "\<forall>x \<in> set (e # es). status x = ''skipped''"
    using e(3) r(3) by simp
  ultimately show ?case using same r(4,5) d by (metis (no_types, lifting))
qed

lemma topics_ok_empty: "topics_ok Map.empty"
  by (simp add: topics_ok_def)

lemma workflow_not_empty: "workflow \<noteq> []"
  by (simp add: workflow_def)

lemma run_system_blank:
  assumes "load_memory f = Inr m" and "strip (content_goal rq) = []"
  shows "run_system E rq f
           = Inr (clarify_step E ''clarify_goal'' ''What is the content goal?''
                    \<lparr>mem = m, disk = f, ticks = 0\<rparr>)"
  using assms by (simp add: run_system_def)

lemma run_system_loop:
  assumes "load_memory f = Inr m" and "strip (content_goal rq) \<noteq> []"
    and "run_loop E rq (run_key (content_goal rq)) workflow
           (\<lparr>mem = m, disk = f, ticks = 0\<rparr>, Map.empty) = Inr (s', outs')"
  shows "run_system E rq f = Inr s'"
  using assms by (simp add: run_system_def)

lemma run_system_shape:
  assumes ld: "load_memory f = Inr m"
  shows "\<exists>s' es as.
           run_system E rq f = Inr s' \<and> load_memory (disk s') = Inr (mem s') \<and>
           work_log (mem s') = work_log m @ es \<and>
           content_library (mem s') = content_library m @ as \<and>
           map asset_type as = map task (filter is_completed es) \<and>
           completed_tasks (mem s') = completed_tasks m
              @ map (\<lambda>e. completed_key (run_key (content_goal rq)) (task e))
                  (filter is_completed es) \<and>
           (\<forall>e \<in> set es. is_completed e \<longrightarrow>
              completed_key (run_key (content_goal rq)) (task e) \<notin> set (completed_tasks m)) \<and>
           (if strip (content_goal rq) = [] then map status es = [''clarify'']
            else map task es = map fst workflow)"
proof (cases "strip (content_goal rq) = []")
  case True
  let ?s = "clarify_step E ''clarify_goal'' ''What is the content goal?''
              \<lparr>mem = m, disk = f, ticks = 0\<rparr>"
  let ?e = "\<lparr>timestamp = now E 0, task = ''clarify_goal'', tool = ''clarify'',
             status = ''clarify'',
             log_output = Some (truncate E (Str (tool_clarify ''What is the content goal?''))
                                  default_limit),
             reason = None, args = None\<rparr>"
  have "run_system E rq f = Inr ?s"
    by (rule run_system_blank [OF ld True])
  moreover have "load_memory (disk ?s) = Inr (mem ?s)"
    by (simp add: disk_clarify_step load_save)
  moreover have "work_log (mem ?s) = work_log m @ [?e]"
    by (simp add: mem_clarify_step)
  moreover have "content_library (mem ?s) = content_library m @ []"
    by (simp add: mem_clarify_step)
  moreover have "completed_tasks (mem ?s) = completed_tasks m"
    by (simp add: mem_clarify_step)
  ultimately show ?thesis
    using True
    apply -
    apply (rule exI [of _ ?s], rule exI [of _ "[?e]"], rule exI [of _ "[]"])
    apply (simp add: is_completed_def)
    done
next
  case False
  let ?s0 = "\<lparr>mem = m, disk = f, ticks = 0\<rparr>"
  let ?rk = "run_key (content_goal rq)"
  from run_loop_known [OF workflow_known topics_ok_empty, where E=E and rq=rq and rk="?rk"
       and s="?s0"]
  obtain s' outs' where lp: "run_loop E rq ?rk workflow (?s0, Map.empty) = Inr (s', outs')"
    by blast
  from run_loop_shape [OF lp] obtain es as where r:
    "work_log (mem s') = work_log (mem ?s0) @ es" "map task es = map fst workflow"
    "content_library (mem s') = content_library (mem ?s0) @ as"
    "map asset_type as = map task (filter is_completed es)"
    "completed_tasks (mem s') = completed_tasks (mem ?s0)
        @ map (\<lambda>e. completed_key ?rk (task e)) (filter is_completed es)"
    "\<forall>e \<in> set es. is_completed e \<longrightarrow>
        completed_key ?rk (task e) \<notin> set (completed_tasks (mem ?s0))"
    "workflow \<noteq> [] \<longrightarrow> disk s' = save_memory (mem s')"
    by blast
  have "run_system E rq f = Inr s'"
    by (rule run_system_loop [OF ld False lp])
  moreover have "load_memory (disk s') = Inr (mem s')"
    using r(7) workflow_not_empty by (simp add: load_save)
  ultimately show ?thesis
    using False r(1-6)
    apply -
    apply (rule exI [of _ s'], rule exI [of _ es], rule exI [of _ as])
    apply simp
    done
qed

section \<open>A run on a store without the keys of the goal\<close>

lemma topic_index_posts:
  "topic_index ''post_1'' = 0" "topic_index ''post_2'' = 1" "topic_index ''post_3'' = 2"
  by (simp_all add: topic_index_def)

lemma not_skip_fresh:
  assumes "completed_key rk t \<notin> set (completed_tasks m)"
    and "completed_tasks (mem s) = completed_tasks m @ map (completed_key rk) ks"
    and "t \<notin> set ks"
  shows "\<not> should_skip t (mem s) rk"
  using assms by (auto simp: should_skip_def completed_key_def)

lemma run_first:
  fixes E rq f m
  defines "rk \<equiv> run_key (content_goal rq)"
    and "T \<equiv> tool_generate_topics (content_goal rq) (audience rq) (tone rq)"
  assumes ld: "load_memory f = Inr m" and nb: "strip (content_goal rq) \<noteq> []"
    and fresh: "\<forall>st \<in> set workflow. \<not> should_skip (fst st) m rk"
  shows "\<exists>s' es as.
           run_system E rq f = Inr s' \<and> load_memory (disk s') = Inr (mem s') \<and>
           work_log (mem s') = work_log m @ es \<and>
           map task es = [''topics'', ''post_1'', ''post_2'', ''post_3'', ''hashtags'', ''schedule''] \<and>
           map status es = [''completed'', ''completed'', ''completed'', ''completed'',
                            ''completed'', ''completed''] \<and>
           completed_tasks (mem s') = completed_tasks m
              @ map (completed_key rk)
                  [''topics'', ''post_1'', ''post_2'', ''post_3'', ''hashtags'', ''schedule''] \<and>
           content_library (mem s') = content_library m @ as \<and>
           map asset_type as
              = [''topics'', ''post_1'', ''post_2'', ''post_3'', ''hashtags'', ''schedule''] \<and>
           map asset_data as
              = [StrList T,
                 Str (tool_draft_post (T ! 0) (audience rq) (tone rq) (cta rq)),
                 Str (tool_draft_post (T ! 1) (audience rq) (tone rq) (cta rq)),
                 Str (tool_draft_post (T ! 2) (audience rq) (tone rq) (cta rq)),
                 StrList (tool_hashtags (niche rq)),
                 Sched (tool_schedule T)]"
proof -
  define s0 where "s0 = \<lparr>mem = m, disk = f, ticks = 0\<rparr>"
  define o0 where "o0 = (Map.empty :: outputs)"
  have lenT: "length T = 5"
    by (simp add: T_def length_generate_topics)
  have fr: "\<And>t. t \<in> set (map fst workflow) \<Longrightarrow> completed_key rk t \<notin> set (completed_tasks m)"
    using fresh by (auto simp: should_skip_def)
  have wf: "map fst workflow
      = [''topics'', ''post_1'', ''post_2'', ''post_3'', ''hashtags'', ''schedule'']"
    by (simp add: workflow_def)
  have c0: "completed_tasks (mem s0) = completed_tasks m @ map (completed_key rk) []"
    "work_log (mem s0) = work_log m" "content_library (mem s0) = content_library m"
    by (simp_all add: s0_def)

  \<comment> \<open>step 1: topics\<close>
  have n1: "\<not> should_skip ''topics'' (mem s0) rk"
    by (rule not_skip_fresh [OF fr c0(1)]) (simp_all add: wf)
  have b1: "build_args rq ''topics'' ''generate_topics'' o0 = Ready (TopicsArgs (content_goal rq) (audience rq) (tone rq))"
    by (simp add: build_args_generate)
  define o1 where "o1 = o0(''topics'' \<mapsto> StrList T)"
  from run_step_completed [OF n1 b1, where E=E]
  obtain s1 e1 x1 where r1:
    "run_step E rq rk (''topics'', ''generate_topics'') (s0, o0) = Inr (s1, o1)"
    "work_log (mem s1) = work_log (mem s0) @ [e1]"
    "task e1 = ''topics''" "status e1 = ''completed''"
    "completed_tasks (mem s1) = completed_tasks (mem s0) @ [completed_key rk ''topics'']"
    "content_library (mem s1) = content_library (mem s0) @ [x1]"
    "asset_type x1 = ''topics''" "asset_data x1 = StrList T"
    "disk s1 = save_memory (mem s1)"
    unfolding o1_def T_def by auto
  have tp1: "o1 ''topics'' = Some (StrList T)"
    by (simp add: o1_def)
  have c1: "completed_tasks (mem s1) = completed_tasks m @ map (completed_key rk) [''topics'']"
    "work_log (mem s1) = work_log m @ [e1]"
    "content_library (mem s1) = content_library m @ [x1]"
    by (simp_all add: r1(2,5,6) c0)

  \<comment> \<open>step 2: post_1\<close>
  have n2: "\<not> should_skip ''post_1'' (mem s1) rk"
    by (rule not_skip_fresh [OF fr c1(1)]) (simp_all add: wf)
  have b2: "build_args rq ''post_1'' ''draft_post'' o1 = Ready (DraftArgs (T ! 0) (audience rq) (tone rq) (cta rq))"
    using build_args_draft_some [where outs=o1 and ts=T and t="''post_1''" and rq=rq] tp1 lenT
    by (simp add: topic_index_posts)
  define o2 where "o2 = o1(''post_1'' \<mapsto> Str (tool_draft_post (T ! 0) (audience rq) (tone rq) (cta rq)))"
  from run_step_completed [OF n2 b2, where E=E]
  obtain s2 e2 x2 where r2:
    "run_step E rq rk (''post_1'', ''draft_post'') (s1, o1) = Inr (s2, o2)"
    "work_log (mem s2) = work_log (mem s1) @ [e2]"
    "task e2 = ''post_1''" "status e2 = ''completed''"
    "completed_tasks (mem s2) = completed_tasks (mem s1) @ [completed_key rk ''post_1'']"
    "content_library (mem s2) = content_library (mem s1) @ [x2]"
    "asset_type x2 = ''post_1''" "asset_data x2 = Str (tool_draft_post (T ! 0) (audience rq) (tone rq) (cta rq))"
    "disk s2 = save_memory (mem s2)"
    unfolding o2_def T_def by auto
  have tp2: "o2 ''topics'' = Some (StrList T)"
    by (simp add: o2_def tp1)
  have c2: "completed_tasks (mem s2) = completed_tasks m @ map (completed_key rk) [''topics'', ''post_1'']"
    "work_log (mem s2) = work_log m @ [e1, e2]"
    "content_library (mem s2) = content_library m @ [x1, x2]"
    by (simp_all add: r2(2,5,6) c1)

  \<comment> \<open>step 3: post_2\<close>
  have n3: "\<not> should_skip ''post_2'' (mem s2) rk"
    by (rule not_skip_fresh [OF fr c2(1)]) (simp_all add: wf)
  have b3: "build_args rq ''post_2'' ''draft_post'' o2 = Ready (DraftArgs (T ! 1) (audience rq) (tone rq) (cta rq))"
    using build_args_draft_some [where outs=o2 and ts=T and t="''post_2''" and rq=rq] tp2 lenT
    by (simp add: topic_index_posts)
  define o3 where "o3 = o2(''post_2'' \<mapsto> Str (tool_draft_post (T ! 1) (audience rq) (tone rq) (cta rq)))"
  from run_step_completed [OF n3 b3, where E=E]
  obtain s3 e3 x3 where r3:
    "run_step E rq rk (''post_2'', ''draft_post'') (s2, o2) = Inr (s3, o3)"
    "work_log (mem s3) = work_log (mem s2) @ [e3]"
    "task e3 = ''post_2''" "status e3 = ''completed''"
    "completed_tasks (mem s3) = completed_tasks (mem s2) @ [completed_key rk ''post_2'']"
    "content_library (mem s3) = content_library (mem s2) @ [x3]"
    "asset_type x3 = ''post_2''" "asset_data x3 = Str (tool_draft_post (T ! 1) (audience rq) (tone rq) (cta rq))"
    "disk s3 = save_memory (mem s3)"
    unfolding o3_def T_def by auto
  have tp3: "o3 ''topics'' = Some (StrList T)"
    by (simp add: o3_def tp2)
  have c3: "completed_tasks (mem s3) = completed_tasks m @ map (completed_key rk) [''topics'', ''post_1'', ''post_2'']"
    "work_log (mem s3) = work_log m @ [e1, e2, e3]"
    "content_library (mem s3) = content_library m @ [x1, x2, x3]"
    by (simp_all add: r3(2,5,6) c2)

  \<comment> \<open>step 4: post_3\<close>
  have n4: "\<not> should_skip ''post_3'' (mem s3) rk"
    by (rule not_skip_fresh [OF fr c3(1)]) (simp_all add: wf)
  have b4: "build_args rq ''post_3'' ''draft_post'' o3 = Ready (DraftArgs (T ! 2) (audience rq) (tone rq) (cta rq))"
    using build_args_draft_some [where outs=o3 and ts=T and t="''post_3''" and rq=rq] tp3 lenT
    by (simp add: topic_index_posts)
  define o4 where "o4 = o3(''post_3'' \<mapsto> Str (tool_draft_post (T ! 2) (audience rq) (tone rq) (cta rq)))"
  from run_step_completed [OF n4 b4, where E=E]
  obtain s4 e4 x4 where r4:
    "run_step E rq rk (''post_3'', ''draft_post'') (s3, o3) = Inr (s4, o4)"
    "work_log (mem s4) = work_log (mem s3) @ [e4]"
    "task e4 = ''post_3''" "status e4 = ''completed''"
    "completed_tasks (mem s4) = completed_tasks (mem s3) @ [completed_key rk ''post_3'']"
    "content_library (mem s4) = content_library (mem s3) @ [x4]"
    "asset_type x4 = ''post_3''" "asset_data x4 = Str (tool_draft_post (T ! 2) (audience rq) (tone rq) (cta rq))"
    "disk s4 = save_memory (mem s4)"
    unfolding o4_def T_def by auto
  have tp4: "o4 ''topics'' = Some (StrList T)"
    by (simp add: o4_def tp3)
  have c4: "completed_tasks (mem s4) = completed_tasks m @ map (completed_key rk) [''topics'', ''post_1'', ''post_2'', ''post_3'']"
    "work_log (mem s4) = work_log m @ [e1, e2, e3, e4]"
    "content_library (mem s4) = content_library m @ [x1, x2, x3, x4]"
    by (simp_all add: r4(2,5,6) c3)

  \<comment> \<open>step 5: hashtags\<close>
  have n5: "\<not> should_skip ''hashtags'' (mem s4) rk"
    by (rule not_skip_fresh [OF fr c4(1)]) (simp_all add: wf)
  have b5: "build_args rq ''hashtags'' ''hashtags'' o4 = Ready (HashtagsArgs (niche rq))"
    by (simp add: build_args_hashtags)
  define o5 where "o5 = o4(''hashtags'' \<mapsto> StrList (tool_hashtags (niche rq)))"
  from run_step_completed [OF n5 b5, where E=E]
  obtain s5 e5 x5 where r5:
    "run_step E rq rk (''hashtags'', ''hashtags'') (s4, o4) = Inr (s5, o5)"
    "work_log (mem s5) = work_log (mem s4) @ [e5]"
    "task e5 = ''hashtags''" "status e5 = ''completed''"
    "completed_tasks (mem s5) = completed_tasks (mem s4) @ [completed_key rk ''hashtags'']"
    "content_library (mem s5) = content_library (mem s4) @ [x5]"
    "asset_type x5 = ''hashtags''" "asset_data x5 = StrList (tool_hashtags (niche rq))"
    "disk s5 = save_memory (mem s5)"
    unfolding o5_def T_def by auto
  have tp5: "o5 ''topics'' = Some (StrList T)"
    by (simp add: o5_def tp4)
  have c5: "completed_tasks (mem s5) = completed_tasks m @ map (completed_key rk) [''topics'', ''post_1'', ''post_2'', ''post_3'', ''hashtags'']"
    "work_log (mem s5) = work_log m @ [e1, e2, e3, e4, e5]"
    "content_library (mem s5) = content_library m @ [x1, x2, x3, x4, x5]"
    by (simp_all add: r5(2,5,6) c4)

  \<comment> \<open>step 6: schedule\<close>
  have n6: "\<not> should_skip ''schedule'' (mem s5) rk"
    by (rule not_skip_fresh [OF fr c5(1)]) (simp_all add: wf)
  have b6: "build_args rq ''schedule'' ''schedule'' o5 = Ready (ScheduleArgs T)"
    using build_args_schedule_some [where outs=o5 and ts=T and t="''schedule''" and rq=rq] tp5
    by simp
  define o6 where "o6 = o5(''schedule'' \<mapsto> Sched (tool_schedule T))"
  from run_step_completed [OF n6 b6, where E=E]
  obtain s6 e6 x6 where r6:
    "run_step E rq rk (''schedule'', ''schedule'') (s5, o5) = Inr (s6, o6)"
    "work_log (mem s6) = work_log (mem s5) @ [e6]"
    "task e6 = ''schedule''" "status e6 = ''completed''"
    "completed_tasks (mem s6) = completed_tasks (mem s5) @ [completed_key rk ''schedule'']"
    "content_library (mem s6) = content_library (mem s5) @ [x6]"
    "asset_type x6 = ''schedule''" "asset_data x6 = Sched (tool_schedule T)"
    "disk s6 = save_memory (mem s6)"
    unfolding o6_def T_def by auto
  have tp6: "o6 ''topics'' = Some (StrList T)"
    by (simp add: o6_def tp5)
  have c6: "completed_tasks (mem s6) = completed_tasks m @ map (completed_key rk) [''topics'', ''post_1'', ''post_2'', ''post_3'', ''hashtags'', ''schedule'']"
    "work_log (mem s6) = work_log m @ [e1, e2, e3, e4, e5, e6]"
    "content_library (mem s6) = content_library m @ [x1, x2, x3, x4, x5, x6]"
    by (simp_all add: r6(2,5,6) c5)

  have lp: "run_loop E rq rk workflow (s0, o0) = Inr (s6, o6)"
    by (simp add: workflow_def r1(1) r2(1) r3(1) r4(1) r5(1) r6(1) del: run_step.simps)
  have rs: "run_system E rq f = Inr s6"
    using run_system_loop [OF ld nb, of E s6 o6] lp
    by (simp add: rk_def s0_def o0_def)
  have dk: "load_memory (disk s6) = Inr (mem s6)"
    by (simp add: r6(9) load_save)
  show ?thesis
    apply (rule exI [of _ s6])
    apply (rule exI [of _ "[e1, e2, e3, e4, e5, e6]"])
    apply (rule exI [of _ "[x1, x2, x3, x4, x5, x6]"])
    apply (simp add: rs dk c6 r1(3,4,7,8) r2(3,4,7,8) r3(3,4,7,8) r4(3,4,7,8) r5(3,4,7,8)
             r6(3,4,7,8))
    done
qed

section \<open>Completed steps\<close>

text \<open>
  C10.  In every run (from a memory that loads) the entries, assets and keys
  the run appends correspond one to one: the assets appended are, in order,
  one per \<^verbatim>\<open>completed\<close> log entry appended, with that entry's task as asset
  type; the completion keys appended are, in order, the keys of the tasks of
  the \<^verbatim>\<open>completed\<close> entries, none of them in the store before the run.  Hence
  the number of assets appended, of \<^verbatim>\<open>completed\<close> entries appended and of
  keys added are equal.
\<close>

theorem completed_steps_balance:
  assumes "load_memory f = Inr m"
  shows "\<exists>s'. run_system E rq f = Inr s'
     \<and> work_log (mem s') = work_log m @ new_entries m (mem s')
     \<and> content_library (mem s') = content_library m @ new_assets m (mem s')
     \<and> completed_tasks (mem s') = completed_tasks m @ new_keys m (mem s')
     \<and> map asset_type (new_assets m (mem s'))
         = map task (filter is_completed (new_entries m (mem s')))
     \<and> new_keys m (mem s')
         = map (\<lambda>e. completed_key (run_key (content_goal rq)) (task e))
             (filter is_completed (new_entries m (mem s')))
     \<and> set (new_keys m (mem s')) \<inter> set (completed_tasks m) = {}
     \<and> length (new_assets m (mem s')) = length (filter is_completed (new_entries m (mem s')))
     \<and> length (new_keys m (mem s')) = length (filter is_completed (new_entries m (mem s')))"
proof -
  from run_system_shape [OF assms, where E=E and rq=rq]
  obtain s' es as where r:
    "run_system E rq f = Inr s'"
    "work_log (mem s') = work_log m @ es"
    "content_library (mem s') = content_library m @ as"
    "map asset_type as = map task (filter is_completed es)"
    "completed_tasks (mem s') = completed_tasks m
       @ map (\<lambda>e. completed_key (run_key (content_goal rq)) (task e)) (filter is_completed es)"
    "\<forall>e \<in> set es. is_completed e \<longrightarrow>
       completed_key (run_key (content_goal rq)) (task e) \<notin> set (completed_tasks m)"
    by blast
  have ne: "new_entries m (mem s') = es"
    by (simp add: new_entries_def r(2))
  have na: "new_assets m (mem s') = as"
    by (simp add: new_assets_def r(3))
  have nk: "new_keys m (mem s')
      = map (\<lambda>e. completed_key (run_key (content_goal rq)) (task e)) (filter is_completed es)"
    by (simp add: new_keys_def r(5))
  have la: "length as = length (filter is_completed es)"
    using arg_cong [OF r(4), of length] by simp
  have dj: "set (new_keys m (mem s')) \<inter> set (completed_tasks m) = {}"
    unfolding nk using r(6) by auto
  show ?thesis
    apply (rule exI [of _ s'])
    using r(1-5) dj la by (simp add: ne na nk)
qed

section \<open>Append-only lists\<close>

lemma run_system_extends:
  assumes "load_memory f = Inr m"
  shows "\<exists>s'. run_system E rq f = Inr s' \<and> load_memory (disk s') = Inr (mem s')
           \<and> prefix (work_log m) (work_log (mem s'))
           \<and> prefix (content_library m) (content_library (mem s'))"
  using run_system_shape [OF assms, where E=E and rq=rq] by (metis prefixI)

lemma run_many_extends:
  assumes "load_memory f = Inr m"
  shows "\<exists>f' m'. run_many runs f = Inr f' \<and> load_memory f' = Inr m'
           \<and> prefix (work_log m) (work_log m')
           \<and> prefix (content_library m) (content_library m')"
  using assms
proof (induction runs arbitrary: f m)
  case Nil
  then show ?case by simp
next
  case (Cons r runs)
  obtain E rq where r: "r = (E, rq)" by (cases r)
  from run_system_extends [OF Cons.prems, where E=E and rq=rq]
  obtain s1 where one: "run_system E rq f = Inr s1" "load_memory (disk s1) = Inr (mem s1)"
    "prefix (work_log m) (work_log (mem s1))"
    "prefix (content_library m) (content_library (mem s1))" by blast
  from Cons.IH [OF one(2)]
  obtain f' m' where rest: "run_many runs (disk s1) = Inr f'" "load_memory f' = Inr m'"
    "prefix (work_log (mem s1)) (work_log m')"
    "prefix (content_library (mem s1)) (content_library m')" by blast
  have "run_many (r # runs) f = Inr f'"
    using one(1) rest(1) by (simp add: r)
  moreover have "prefix (work_log m) (work_log m')"
    using one(3) rest(3) by (rule prefix_order.trans)
  moreover have "prefix (content_library m) (content_library m')"
    using one(4) rest(4) by (rule prefix_order.trans)
  ultimately show ?case using rest(2) by blast
qed

lemma run_loop_extends:
  assumes "run_loop E rq rk steps (s, outs) = Inr (s', outs')"
  shows "prefix (work_log (mem s)) (work_log (mem s'))
         \<and> prefix (content_library (mem s)) (content_library (mem s'))"
  using run_loop_shape [OF assms] by (metis prefixI)

text \<open>
  C7.  \<^verbatim>\<open>work_log\<close> and \<^verbatim>\<open>content_library\<close> only grow at the end: over any
  sequence of steps of the loop, and over any sequence of runs threaded
  through the backing file, the old list is a prefix of the new one (so every
  entry keeps its position, and the lengths do not decrease); \<^verbatim>\<open>log_event\<close>
  appends one entry to the log and leaves the library alone, \<^verbatim>\<open>mark_done\<close>
  touches neither.
\<close>

theorem append_only:
  "(run_loop E rq rk steps (s, outs) = Inr (s', outs') \<longrightarrow>
      prefix (work_log (mem s)) (work_log (mem s'))
      \<and> prefix (content_library (mem s)) (content_library (mem s'))
      \<and> length (work_log (mem s)) \<le> length (work_log (mem s'))
      \<and> length (content_library (mem s)) \<le> length (content_library (mem s')))
   \<and> (load_memory f = Inr m \<longrightarrow>
        (\<exists>f' m'. run_many runs f = Inr f' \<and> load_memory f' = Inr m'
           \<and> prefix (work_log m) (work_log m')
           \<and> prefix (content_library m) (content_library m')
           \<and> length (work_log m) \<le> length (work_log m')
           \<and> length (content_library m) \<le> length (content_library m')))
   \<and> work_log (mem (log_event s ev)) = work_log (mem s) @ [ev]
   \<and> content_library (mem (log_event s ev)) = content_library (mem s)
   \<and> work_log (mem (mark_done t s rk)) = work_log (mem s)
   \<and> content_library (mem (mark_done t s rk)) = content_library (mem s)"
proof -
  have a: "run_loop E rq rk steps (s, outs) = Inr (s', outs') \<longrightarrow>
      prefix (work_log (mem s)) (work_log (mem s'))
      \<and> prefix (content_library (mem s)) (content_library (mem s'))
      \<and> length (work_log (mem s)) \<le> length (work_log (mem s'))
      \<and> length (content_library (mem s)) \<le> length (content_library (mem s'))"
    using run_loop_extends [of E rq rk steps s outs s' outs']
    by (auto dest: prefix_length_le)
  have b: "load_memory f = Inr m \<longrightarrow>
        (\<exists>f' m'. run_many runs f = Inr f' \<and> load_memory f' = Inr m'
           \<and> prefix (work_log m) (work_log m')
           \<and> prefix (content_library m) (content_library m')
           \<and> length (work_log m) \<le> length (work_log m')
           \<and> length (content_library m) \<le> length (content_library m'))"
    using run_many_extends [of f m runs]
    by (metis prefix_length_le)
  from a b show ?thesis by simp
qed

section \<open>The topic lookup\<close>

lemma load_memory_error: "load_memory f = Inl e \<Longrightarrow> e \<noteq> IndexError"
  by (auto simp: load_memory_def split: backing_file.splits)

lemma run_system_no_index_error: "run_system E rq f \<noteq> Inl IndexError"
proof (cases "load_memory f")
  case (Inl e)
  then show ?thesis
    using load_memory_error [OF Inl] by (simp add: run_system_def)
next
  case (Inr m)
  from run_system_shape [OF Inr, where E=E and rq=rq] show ?thesis by auto
qed

text \<open>
  C9.  \<^verbatim>\<open>tool_generate_topics\<close> returns five topics whatever its arguments; the
  index a draft step uses is below that length, so with this tool's output
  under \<^verbatim>\<open>topics\<close> the draft step's arguments are built without an
  \<^verbatim>\<open>IndexError\<close>; and no run of the system ends in an \<^verbatim>\<open>IndexError\<close>.
\<close>

theorem topic_lookup_in_range:
  "length (tool_generate_topics goal aud tn) = 5
   \<and> topic_index task_id < length (tool_generate_topics goal aud tn)
   \<and> build_args rq task_id ''draft_post''
        (outs(''topics'' \<mapsto> StrList (tool_generate_topics goal aud tn)))
      = Ready (DraftArgs (tool_generate_topics goal aud tn ! topic_index task_id)
                 (audience rq) (tone rq) (cta rq))
   \<and> run_system E rq f \<noteq> Inl IndexError"
proof -
  have i: "topic_index task_id < length (tool_generate_topics goal aud tn)"
    using topic_index_le [of task_id] by (simp add: length_generate_topics)
  show ?thesis
    using i by (simp add: length_generate_topics build_args_draft_some run_system_no_index_error)
qed

section \<open>A run in which the topics step is skipped\<close>

lemma run_step_dependent_no_topics:
  assumes nt: "outs ''topics'' = None" and tn: "tn = ''draft_post'' \<or> tn = ''schedule''"
  shows "\<exists>s' e. run_step E rq rk (t, tn) (s, outs) = Inr (s', outs)
           \<and> work_log (mem s') = work_log (mem s) @ [e] \<and> task e = t
           \<and> status e = (if should_skip t (mem s) rk then ''skipped'' else ''clarify'')
           \<and> completed_tasks (mem s') = completed_tasks (mem s)
           \<and> content_library (mem s') = content_library (mem s)
           \<and> disk s' = save_memory (mem s')"
proof (cases "should_skip t (mem s) rk")
  case True
  from run_step_skipped [OF True, where E=E and rq=rq and tn=tn and outs=outs] True
  show ?thesis by auto
next
  case False
  from tn nt obtain q where q: "build_args rq t tn outs = Clarify q"
    using build_args_draft_none [of outs rq t] build_args_schedule_none [of outs rq t]
    by auto
  from run_step_clarified [OF False q, where E=E] False
  show ?thesis by auto
qed

lemma run_step_hashtags:
  "\<exists>s' outs' e as.
      run_step E rq rk (''hashtags'', ''hashtags'') (s, outs) = Inr (s', outs')
      \<and> outs' ''topics'' = outs ''topics''
      \<and> work_log (mem s') = work_log (mem s) @ [e] \<and> task e = ''hashtags''
      \<and> set (completed_tasks (mem s'))
           \<subseteq> insert (completed_key rk ''hashtags'') (set (completed_tasks (mem s)))
      \<and> set (completed_tasks (mem s)) \<subseteq> set (completed_tasks (mem s'))
      \<and> content_library (mem s') = content_library (mem s) @ as
      \<and> (\<forall>a \<in> set as. asset_type a = ''hashtags'')
      \<and> disk s' = save_memory (mem s')"
proof (cases "should_skip ''hashtags'' (mem s) rk")
  case True
  from run_step_skipped [OF True, where E=E and rq=rq and tn="''hashtags''" and outs=outs]
  obtain s' e where r: "run_step E rq rk (''hashtags'', ''hashtags'') (s, outs) = Inr (s', outs)"
    "work_log (mem s') = work_log (mem s) @ [e]" "task e = ''hashtags''"
    "completed_tasks (mem s') = completed_tasks (mem s)"
    "content_library (mem s') = content_library (mem s)"
    "disk s' = save_memory (mem s')" by blast
  show ?thesis
    apply (rule exI [of _ s'], rule exI [of _ outs], rule exI [of _ e], rule exI [of _ "[]"])
    using r by auto
next
  case False
  from run_step_completed [OF False build_args_hashtags, where E=E]
  obtain s' e x where r:
    "run_step E rq rk (''hashtags'', ''hashtags'') (s, outs)
       = Inr (s', outs(''hashtags'' \<mapsto> call_tool (HashtagsArgs (niche rq))))"
    "work_log (mem s') = work_log (mem s) @ [e]" "task e = ''hashtags''"
    "completed_tasks (mem s') = completed_tasks (mem s) @ [completed_key rk ''hashtags'']"
    "content_library (mem s') = content_library (mem s) @ [x]"
    "asset_type x = ''hashtags''"
    "disk s' = save_memory (mem s')" by blast
  show ?thesis
    apply (rule exI [of _ s'])
    apply (rule exI [of _ "outs(''hashtags'' \<mapsto> call_tool (HashtagsArgs (niche rq)))"])
    apply (rule exI [of _ e], rule exI [of _ "[x]"])
    using r by auto
qed

lemma run_without_topics:
  fixes E rq f m
  defines "rk \<equiv> run_key (content_goal rq)"
  assumes ld: "load_memory f = Inr m" and nb: "strip (content_goal rq) \<noteq> []"
    and tk: "should_skip ''topics'' m rk"
  shows "\<exists>s' e1 e2 e3 e4 e5 e6 as.
           run_system E rq f = Inr s' \<and> load_memory (disk s') = Inr (mem s')
           \<and> work_log (mem s') = work_log m @ [e1, e2, e3, e4, e5, e6]
           \<and> map task [e1, e2, e3, e4, e5, e6]
                = [''topics'', ''post_1'', ''post_2'', ''post_3'', ''hashtags'', ''schedule'']
           \<and> status e1 = ''skipped''
           \<and> map status [e2, e3, e4, e6]
                = map (\<lambda>t. if should_skip t m rk then ''skipped'' else ''clarify'')
                    [''post_1'', ''post_2'', ''post_3'', ''schedule'']
           \<and> content_library (mem s') = content_library m @ as
           \<and> (\<forall>a \<in> set as. asset_type a = ''hashtags'')
           \<and> map (\<lambda>t. should_skip t (mem s') rk) [''post_1'', ''post_2'', ''post_3'', ''schedule'']
                = map (\<lambda>t. should_skip t m rk) [''post_1'', ''post_2'', ''post_3'', ''schedule'']"
proof -
  define s0 where "s0 = \<lparr>mem = m, disk = f, ticks = 0\<rparr>"
  define o0 where "o0 = (Map.empty :: outputs)"
  have m0: "mem s0 = m" by (simp add: s0_def)
  have nt0: "o0 ''topics'' = None" by (simp add: o0_def)
  have sk0: "should_skip ''topics'' (mem s0) rk" using tk by (simp add: m0)
  from run_step_skipped [OF sk0, where E=E and rq=rq and tn="''generate_topics''" and outs=o0]
  obtain s1 e1 where r1:
    "run_step E rq rk (''topics'', ''generate_topics'') (s0, o0) = Inr (s1, o0)"
    "work_log (mem s1) = work_log (mem s0) @ [e1]" "task e1 = ''topics''"
    "status e1 = ''skipped''"
    "completed_tasks (mem s1) = completed_tasks (mem s0)"
    "content_library (mem s1) = content_library (mem s0)" by blast
  from run_step_dependent_no_topics [where outs=o0 and tn="''draft_post''" and E=E
       and rq=rq and rk=rk and t="''post_1''" and s=s1] nt0
  obtain s2 e2 where r2:
    "run_step E rq rk (''post_1'', ''draft_post'') (s1, o0) = Inr (s2, o0)"
    "work_log (mem s2) = work_log (mem s1) @ [e2]" "task e2 = ''post_1''"
    "status e2 = (if should_skip ''post_1'' (mem s1) rk then ''skipped'' else ''clarify'')"
    "completed_tasks (mem s2) = completed_tasks (mem s1)"
    "content_library (mem s2) = content_library (mem s1)" by auto
  from run_step_dependent_no_topics [where outs=o0 and tn="''draft_post''" and E=E
       and rq=rq and rk=rk and t="''post_2''" and s=s2] nt0
  obtain s3 e3 where r3:
    "run_step E rq rk (''post_2'', ''draft_post'') (s2, o0) = Inr (s3, o0)"
    "work_log (mem s3) = work_log (mem s2) @ [e3]" "task e3 = ''post_2''"
    "status e3 = (if should_skip ''post_2'' (mem s2) rk then ''skipped'' else ''clarify'')"
    "completed_tasks (mem s3) = completed_tasks (mem s2)"
    "content_library (mem s3) = content_library (mem s2)" by auto
  from run_step_dependent_no_topics [where outs=o0 and tn="''draft_post''" and E=E
       and rq=rq and rk=rk and t="''post_3''" and s=s3] nt0
  obtain s4 e4 where r4:
    "run_step E rq rk (''post_3'', ''draft_post'') (s3, o0) = Inr (s4, o0)"
    "work_log (mem s4) = work_log (mem s3) @ [e4]" "task e4 = ''post_3''"
    "status e4 = (if should_skip ''post_3'' (mem s3) rk then ''skipped'' else ''clarify'')"
    "completed_tasks (mem s4) = completed_tasks (mem s3)"
    "content_library (mem s4) = content_library (mem s3)" by auto
  from run_step_hashtags [of E rq rk s4 o0]
  obtain s5 o5 e5 as where r5:
    "run_step E rq rk (''hashtags'', ''hashtags'') (s4, o0) = Inr (s5, o5)"
    "o5 ''topics'' = o0 ''topics''"
    "work_log (mem s5) = work_log (mem s4) @ [e5]" "task e5 = ''hashtags''"
    "set (completed_tasks (mem s5))
       \<subseteq> insert (completed_key rk ''hashtags'') (set (completed_tasks (mem s4)))"
    "set (completed_tasks (mem s4)) \<subseteq> set (completed_tasks (mem s5))"
    "content_library (mem s5) = content_library (mem s4) @ as"
    "\<forall>a \<in> set as. asset_type a = ''hashtags''" by blast
  have nt5: "o5 ''topics'' = None" using r5(2) nt0 by simp
  from run_step_dependent_no_topics [where outs=o5 and tn="''schedule''" and E=E
       and rq=rq and rk=rk and t="''schedule''" and s=s5] nt5
  obtain s6 e6 where r6:
    "run_step E rq rk (''schedule'', ''schedule'') (s5, o5) = Inr (s6, o5)"
    "work_log (mem s6) = work_log (mem s5) @ [e6]" "task e6 = ''schedule''"
    "status e6 = (if should_skip ''schedule'' (mem s5) rk then ''skipped'' else ''clarify'')"
    "completed_tasks (mem s6) = completed_tasks (mem s5)"
    "content_library (mem s6) = content_library (mem s5)"
    "disk s6 = save_memory (mem s6)" by auto
  have ct4: "completed_tasks (mem s4) = completed_tasks m"
    by (simp add: r4(5) r3(5) r2(5) r1(5) m0)
  have sk4: "\<And>t. should_skip t (mem s1) rk = should_skip t m rk"
    "\<And>t. should_skip t (mem s2) rk = should_skip t m rk"
    "\<And>t. should_skip t (mem s3) rk = should_skip t m rk"
    by (simp_all add: should_skip_def r3(5) r2(5) r1(5) m0)
  have sk5: "\<And>t. t \<noteq> ''hashtags'' \<Longrightarrow> should_skip t (mem s5) rk = should_skip t m rk"
    using r5(5,6) by (auto simp: should_skip_def ct4 completed_key_def)
  have sk6: "\<And>t. t \<noteq> ''hashtags'' \<Longrightarrow> should_skip t (mem s6) rk = should_skip t m rk"
    using sk5 by (simp add: should_skip_def r6(5))
  have lp: "run_loop E rq rk workflow (s0, o0) = Inr (s6, o5)"
    by (simp add: workflow_def r1(1) r2(1) r3(1) r4(1) r5(1) r6(1) del: run_step.simps)
  have rs: "run_system E rq f = Inr s6"
    using run_system_loop [OF ld nb, of E s6 o5] lp
    by (simp add: rk_def s0_def o0_def)
  have dk: "load_memory (disk s6) = Inr (mem s6)"
    by (simp add: r6(7) load_save)
  have wl: "work_log (mem s6) = work_log m @ [e1, e2, e3, e4, e5, e6]"
    by (simp add: r6(2) r5(3) r4(2) r3(2) r2(2) r1(2) m0)
  have cl: "content_library (mem s6) = content_library m @ as"
    by (simp add: r6(6) r5(7) r4(6) r3(6) r2(6) r1(6) m0)
  show ?thesis
    apply (rule exI [of _ s6])
    apply (rule exI [of _ e1], rule exI [of _ e2], rule exI [of _ e3])
    apply (rule exI [of _ e4], rule exI [of _ e5], rule exI [of _ e6], rule exI [of _ as])
    using rs dk wl cl r5(8)
    by (simp add: r1(3,4) r2(3,4) r3(3,4) r4(3,4) r5(4) r6(3,4) sk4 sk5 sk6)
qed

section \<open>Running the same goal again\<close>

lemma map_status_const:
  "\<forall>e \<in> set es. status e = c \<Longrightarrow> map status es = replicate (length es) c"
  by (induction es) auto

lemma filter_all_completed:
  "\<forall>e \<in> set es. status e = ''completed'' \<Longrightarrow> filter is_completed es = es"
  by (induction es) (auto simp: is_completed_def)

lemma run_all_done:
  assumes ld: "load_memory f = Inr m" and nb: "strip (content_goal rq) \<noteq> []"
    and sk: "\<forall>st \<in> set workflow. should_skip (fst st) m (run_key (content_goal rq))"
  shows "\<exists>s2. run_system E rq f = Inr s2
           \<and> load_memory (disk s2) = Inr (mem s2)
           \<and> work_log (mem s2) = work_log m @ new_entries m (mem s2)
           \<and> map task (new_entries m (mem s2)) = map fst workflow
           \<and> map status (new_entries m (mem s2)) = replicate 6 ''skipped''
           \<and> new_assets m (mem s2) = []
           \<and> content_library (mem s2) = content_library m
           \<and> completed_tasks (mem s2) = completed_tasks m"
proof -
  let ?rk = "run_key (content_goal rq)"
  let ?s0 = "\<lparr>mem = m, disk = f, ticks = 0\<rparr>"
  have sk0: "\<forall>st \<in> set workflow. should_skip (fst st) (mem ?s0) ?rk"
    using sk by simp
  from run_loop_all_skipped [OF sk0, where E=E and rq=rq and outs=Map.empty]
  obtain s2 es2 where lp: "run_loop E rq ?rk workflow (?s0, Map.empty) = Inr (s2, Map.empty)"
    and r2: "work_log (mem s2) = work_log (mem ?s0) @ es2"
      "map task es2 = map fst workflow"
      "\<forall>e \<in> set es2. status e = ''skipped''"
      "completed_tasks (mem s2) = completed_tasks (mem ?s0)"
      "content_library (mem s2) = content_library (mem ?s0)"
      "workflow \<noteq> [] \<longrightarrow> disk s2 = save_memory (mem s2)"
    by blast
  have run2: "run_system E rq f = Inr s2"
    by (rule run_system_loop [OF ld nb lp])
  have dk: "load_memory (disk s2) = Inr (mem s2)"
    using r2(6) workflow_not_empty by (simp add: load_save)
  have ne2: "new_entries m (mem s2) = es2"
    using r2(1) by (simp add: new_entries_def)
  have len2: "length es2 = 6"
    using arg_cong [OF r2(2), of length] by (simp add: workflow_def)
  have st2: "map status es2 = replicate 6 ''skipped''"
    using map_status_const [OF r2(3)] len2 by simp
  have na2: "new_assets m (mem s2) = []"
    using r2(5) by (simp add: new_assets_def)
  show ?thesis
    apply (rule exI [of _ s2])
    using run2 dk r2(1,2,4,5) st2 na2 by (simp add: ne2)
qed

text \<open>
  C2.  Whatever the goal: after a first run in which every log entry the run
  appended is \<^verbatim>\<open>completed\<close> (every step completed), a second run with the
  same goal, on the file the first run left, appends only \<^verbatim>\<open>skipped\<close>
  entries, one for each step of the workflow and so one for each step the
  first run completed; it appends no asset and leaves \<^verbatim>\<open>completed_tasks\<close>
  as it was.  The other parameters and the clock of the second run are free.
\<close>

theorem second_run_skips:
  assumes ld: "load_memory f = Inr m"
    and r1: "run_system E rq f = Inr s1"
    and all: "\<forall>e \<in> set (new_entries m (mem s1)). status e = ''completed''"
    and same: "content_goal rq' = content_goal rq"
  shows "\<exists>s2. run_system E' rq' (disk s1) = Inr s2
           \<and> work_log (mem s2) = work_log (mem s1) @ new_entries (mem s1) (mem s2)
           \<and> map task (new_entries (mem s1) (mem s2)) = map task (new_entries m (mem s1))
           \<and> map task (new_entries (mem s1) (mem s2)) = map fst workflow
           \<and> map status (new_entries (mem s1) (mem s2)) = replicate 6 ''skipped''
           \<and> new_assets (mem s1) (mem s2) = []
           \<and> content_library (mem s2) = content_library (mem s1)
           \<and> completed_tasks (mem s2) = completed_tasks (mem s1)"
proof -
  let ?rk = "run_key (content_goal rq)"
  from run_system_shape [OF ld, where E=E and rq=rq] r1
  obtain es as where r:
    "load_memory (disk s1) = Inr (mem s1)"
    "work_log (mem s1) = work_log m @ es"
    "completed_tasks (mem s1) = completed_tasks m
       @ map (\<lambda>e. completed_key ?rk (task e)) (filter is_completed es)"
    "if strip (content_goal rq) = [] then map status es = [''clarify'']
     else map task es = map fst workflow"
    by auto
  have ne: "new_entries m (mem s1) = es"
    by (simp add: new_entries_def r(2))
  have allc: "\<forall>e \<in> set es. status e = ''completed''"
    using all by (simp add: ne)
  have nb: "strip (content_goal rq) \<noteq> []"
  proof
    assume "strip (content_goal rq) = []"
    with r(4) have "map status es = [''clarify'']" by simp
    then obtain e where "es = [e]" "status e = ''clarify''" by auto
    with allc show False by simp
  qed
  with r(4) have tasks: "map task es = map fst workflow" by simp
  have keys: "completed_tasks (mem s1)
      = completed_tasks m @ map (completed_key ?rk) (map fst workflow)"
    using r(3) tasks [symmetric] by (simp add: filter_all_completed [OF allc] comp_def)
  have sk: "\<forall>st \<in> set workflow. should_skip (fst st) (mem s1) (run_key (content_goal rq'))"
    by (simp add: should_skip_def keys same)
  have nb': "strip (content_goal rq') \<noteq> []"
    using nb by (simp add: same)
  from run_all_done [OF r(1) nb' sk, where E=E'] show ?thesis
    by (auto simp: ne tasks)
qed

section \<open>The sample runs\<close>

lemma sample_goal: "content_goal sample_request = ''Grow my newsletter''"
  by (simp add: sample_request_def)

lemma newsletter_key: "run_key ''Grow my newsletter'' = ''run:grow my newsletter''"
  by code_simp

lemma newsletter_not_blank: "strip ''Grow my newsletter'' \<noteq> []"
  by code_simp

lemma empty_memory_fresh: "\<forall>st \<in> set workflow. \<not> should_skip (fst st) empty_memory rk"
  by (simp add: should_skip_def empty_memory_def)

lemma newsletter_schedule:
  "tool_schedule (tool_generate_topics ''Grow my newsletter'' a tn)
     = [\<lparr>day = ''Mon'', topic = ''Grow my newsletter: 3 mistakes to avoid''\<rparr>,
        \<lparr>day = ''Tue'', topic = ''Grow my newsletter: the step-by-step beginner roadmap''\<rparr>,
        \<lparr>day = ''Wed'', topic = ''Grow my newsletter: what I wish I knew earlier''\<rparr>,
        \<lparr>day = ''Thu'', topic = ''Grow my newsletter: tools and resources I actually use''\<rparr>,
        \<lparr>day = ''Fri'', topic = ''Grow my newsletter: quick wins you can do this week''\<rparr>]"
  by (simp add: tool_schedule_def tool_generate_topics_def)

lemma newsletter_run:
  assumes ld: "load_memory f = Inr empty_memory"
    and g: "content_goal rq = ''Grow my newsletter''"
  shows "\<exists>s'. run_system E rq f = Inr s'
     \<and> load_memory (disk s') = Inr (mem s')
     \<and> map task (work_log (mem s'))
         = [''topics'', ''post_1'', ''post_2'', ''post_3'', ''hashtags'', ''schedule'']
     \<and> map status (work_log (mem s'))
         = [''completed'', ''completed'', ''completed'', ''completed'', ''completed'',
            ''completed'']
     \<and> completed_tasks (mem s')
         = [''run:grow my newsletter:topics'', ''run:grow my newsletter:post_1'',
            ''run:grow my newsletter:post_2'', ''run:grow my newsletter:post_3'',
            ''run:grow my newsletter:hashtags'', ''run:grow my newsletter:schedule'']
     \<and> map asset_type (content_library (mem s'))
         = [''topics'', ''post_1'', ''post_2'', ''post_3'', ''hashtags'', ''schedule'']
     \<and> asset_data (content_library (mem s') ! 5)
         = Sched
             [\<lparr>day = ''Mon'', topic = ''Grow my newsletter: 3 mistakes to avoid''\<rparr>,
              \<lparr>day = ''Tue'', topic = ''Grow my newsletter: the step-by-step beginner roadmap''\<rparr>,
              \<lparr>day = ''Wed'', topic = ''Grow my newsletter: what I wish I knew earlier''\<rparr>,
              \<lparr>day = ''Thu'', topic = ''Grow my newsletter: tools and resources I actually use''\<rparr>,
              \<lparr>day = ''Fri'', topic = ''Grow my newsletter: quick wins you can do this week''\<rparr>]"
proof -
  have nb: "strip (content_goal rq) \<noteq> []"
    by (simp add: g newsletter_not_blank)
  from run_first [OF ld nb empty_memory_fresh, where E=E]
  obtain s' es as where r:
    "run_system E rq f = Inr s'" "load_memory (disk s') = Inr (mem s')"
    "work_log (mem s') = work_log empty_memory @ es"
    "map task es = [''topics'', ''post_1'', ''post_2'', ''post_3'', ''hashtags'', ''schedule'']"
    "map status es = [''completed'', ''completed'', ''completed'', ''completed'',
                      ''completed'', ''completed'']"
    "completed_tasks (mem s') = completed_tasks empty_memory
        @ map (completed_key (run_key (content_goal rq)))
            [''topics'', ''post_1'', ''post_2'', ''post_3'', ''hashtags'', ''schedule'']"
    "content_library (mem s') = content_library empty_memory @ as"
    "map asset_type as
        = [''topics'', ''post_1'', ''post_2'', ''post_3'', ''hashtags'', ''schedule'']"
    "map asset_data as ! 5
        = Sched (tool_schedule
                   (tool_generate_topics (content_goal rq) (audience rq) (tone rq)))"
    by auto
  have wl: "work_log (mem s') = es" and cl: "content_library (mem s') = as"
    using r(3,7) by (simp_all add: empty_memory_def)
  have len: "length as = 6"
    using arg_cong [OF r(8), of length] by simp
  have d5: "asset_data (as ! 5) = map asset_data as ! 5"
    using len by simp
  have ks: "completed_tasks (mem s')
         = [''run:grow my newsletter:topics'', ''run:grow my newsletter:post_1'',
            ''run:grow my newsletter:post_2'', ''run:grow my newsletter:post_3'',
            ''run:grow my newsletter:hashtags'', ''run:grow my newsletter:schedule'']"
    by (simp add: r(6) g newsletter_key completed_key_def empty_memory_def)
  show ?thesis
    apply (rule exI [of _ s'])
    using r(1,2,4,5,8) ks
    by (simp add: wl cl d5 r(9) g newsletter_schedule)
qed

lemma first_run_facts:
  "run_system sample_env sample_request NoFile = Inr first_run"
  "load_memory (disk first_run) = Inr (mem first_run)"
  "map task (work_log (mem first_run))
     = [''topics'', ''post_1'', ''post_2'', ''post_3'', ''hashtags'', ''schedule'']"
  "map status (work_log (mem first_run))
     = [''completed'', ''completed'', ''completed'', ''completed'', ''completed'',
        ''completed'']"
  "completed_tasks (mem first_run)
     = [''run:grow my newsletter:topics'', ''run:grow my newsletter:post_1'',
        ''run:grow my newsletter:post_2'', ''run:grow my newsletter:post_3'',
        ''run:grow my newsletter:hashtags'', ''run:grow my newsletter:schedule'']"
  "map asset_type (content_library (mem first_run))
     = [''topics'', ''post_1'', ''post_2'', ''post_3'', ''hashtags'', ''schedule'']"
proof -
  from newsletter_run [OF load_NoFile sample_goal, of sample_env]
  obtain s' where r: "run_system sample_env sample_request NoFile = Inr s'
     \<and> load_memory (disk s') = Inr (mem s')
     \<and> map task (work_log (mem s'))
         = [''topics'', ''post_1'', ''post_2'', ''post_3'', ''hashtags'', ''schedule'']
     \<and> map status (work_log (mem s'))
         = [''completed'', ''completed'', ''completed'', ''completed'', ''completed'',
            ''completed'']
     \<and> completed_tasks (mem s')
         = [''run:grow my newsletter:topics'', ''run:grow my newsletter:post_1'',
            ''run:grow my newsletter:post_2'', ''run:grow my newsletter:post_3'',
            ''run:grow my newsletter:hashtags'', ''run:grow my newsletter:schedule'']
     \<and> map asset_type (content_library (mem s'))
         = [''topics'', ''post_1'', ''post_2'', ''post_3'', ''hashtags'', ''schedule'']
     \<and> asset_data (content_library (mem s') ! 5)
         = Sched
             [\<lparr>day = ''Mon'', topic = ''Grow my newsletter: 3 mistakes to avoid''\<rparr>,
              \<lparr>day = ''Tue'', topic = ''Grow my newsletter: the step-by-step beginner roadmap''\<rparr>,
              \<lparr>day = ''Wed'', topic = ''Grow my newsletter: what I wish I knew earlier''\<rparr>,
              \<lparr>day = ''Thu'', topic = ''Grow my newsletter: tools and resources I actually use''\<rparr>,
              \<lparr>day = ''Fri'', topic = ''Grow my newsletter: quick wins you can do this week''\<rparr>]"
    by (rule exE)
  from r have fr: "first_run = s'"
    by (simp add: first_run_def)
  from r show "run_system sample_env sample_request NoFile = Inr first_run"
    unfolding fr by (rule conjunct1)
  from r show "load_memory (disk first_run) = Inr (mem first_run)"
    unfolding fr by (elim conjE)
  from r show "map task (work_log (mem first_run))
       = [''topics'', ''post_1'', ''post_2'', ''post_3'', ''hashtags'', ''schedule'']"
    unfolding fr by (elim conjE)
  from r show "map status (work_log (mem first_run))
       = [''completed'', ''completed'', ''completed'', ''completed'', ''completed'',
          ''completed'']"
    unfolding fr by (elim conjE)
  from r show "completed_tasks (mem first_run)
       = [''run:grow my newsletter:topics'', ''run:grow my newsletter:post_1'',
          ''run:grow my newsletter:post_2'', ''run:grow my newsletter:post_3'',
          ''run:grow my newsletter:hashtags'', ''run:grow my newsletter:schedule'']"
    unfolding fr by (elim conjE)
  from r show "map asset_type (content_library (mem first_run))
       = [''topics'', ''post_1'', ''post_2'', ''post_3'', ''hashtags'', ''schedule'']"
    unfolding fr by (elim conjE)
qed

lemma first_run_lengths:
  "length (work_log (mem first_run)) = 6"
  "length (completed_tasks (mem first_run)) = 6"
  "length (content_library (mem first_run)) = 6"
  using arg_cong [OF first_run_facts(3), of length]
        arg_cong [OF first_run_facts(6), of length]
  by (simp_all add: first_run_facts(5))

lemma first_run_new_entries:
  "new_entries empty_memory (mem first_run) = work_log (mem first_run)"
  by (simp add: new_entries_def empty_memory_def)

lemma first_run_all_completed:
  "\<forall>e \<in> set (work_log (mem first_run)). status e = ''completed''"
proof -
  have "set (map status (work_log (mem first_run))) = {''completed''}"
    by (simp add: first_run_facts(4))
  then show ?thesis by auto
qed

lemma sample_key: "run_key (content_goal sample_request) = ''run:grow my newsletter''"
  by (simp add: sample_goal newsletter_key)

lemma sample_not_blank: "strip (content_goal sample_request) \<noteq> []"
  by (simp add: sample_goal newsletter_not_blank)

lemma second_run_facts:
  "run_system sample_env sample_request (disk first_run) = Inr second_run"
  "map task (new_entries (mem first_run) (mem second_run))
     = [''topics'', ''post_1'', ''post_2'', ''post_3'', ''hashtags'', ''schedule'']"
  "map status (new_entries (mem first_run) (mem second_run))
     = [''skipped'', ''skipped'', ''skipped'', ''skipped'', ''skipped'', ''skipped'']"
proof -
  have sk: "\<forall>st \<in> set workflow.
      should_skip (fst st) (mem first_run) (run_key (content_goal sample_request))"
    by (simp add: workflow_def should_skip_def first_run_facts(5) sample_key completed_key_def)
  from run_all_done [OF first_run_facts(2) sample_not_blank sk, where E=sample_env]
  obtain s2 where r: "run_system sample_env sample_request (disk first_run) = Inr s2"
    "map task (new_entries (mem first_run) (mem s2)) = map fst workflow"
    "map status (new_entries (mem first_run) (mem s2)) = replicate 6 ''skipped''"
    by blast
  have sr: "second_run = s2"
    by (simp add: second_run_def r(1))
  have six: "replicate 6 ''skipped''
      = [''skipped'', ''skipped'', ''skipped'', ''skipped'', ''skipped'', ''skipped'']"
    by (simp add: numeral_eq_Suc)
  show "run_system sample_env sample_request (disk first_run) = Inr second_run"
    "map task (new_entries (mem first_run) (mem second_run))
       = [''topics'', ''post_1'', ''post_2'', ''post_3'', ''hashtags'', ''schedule'']"
    "map status (new_entries (mem first_run) (mem second_run))
       = [''skipped'', ''skipped'', ''skipped'', ''skipped'', ''skipped'', ''skipped'']"
    using r six by (simp_all add: sr workflow_def)
qed

lemma load_stored_file: "load_memory stored_file = Inr stored_memory"
  by (simp add: load_memory_def stored_file_def stored_memory_def setdefault_def)

lemma stored_topics_done:
  "should_skip ''topics'' stored_memory (run_key (content_goal sample_request))"
  by (simp add: should_skip_def stored_memory_def sample_key completed_key_def)

lemma stored_dependents_open:
  "\<not> should_skip ''post_1'' stored_memory (run_key (content_goal sample_request))"
  "\<not> should_skip ''post_2'' stored_memory (run_key (content_goal sample_request))"
  "\<not> should_skip ''post_3'' stored_memory (run_key (content_goal sample_request))"
  "\<not> should_skip ''schedule'' stored_memory (run_key (content_goal sample_request))"
  by (simp_all add: should_skip_def stored_memory_def sample_key completed_key_def)

section \<open>The scenario of the fresh store\<close>

text \<open>
  C1 (as the code has it).  On a fresh store (the memory loads as empty), a
  run with the goal \<^verbatim>\<open>Grow my newsletter\<close> appends exactly six log entries
  (topics, three drafts, hashtags, schedule), all \<^verbatim>\<open>completed\<close>; it adds six
  completion keys and appends six assets, one per step; and the data of the
  schedule asset is five entries, Mon to Fri, each paired with one of the
  five topics.
\<close>

theorem fresh_run_six:
  assumes "load_memory f = Inr empty_memory"
    and "content_goal rq = ''Grow my newsletter''"
  shows "\<exists>s'. run_system E rq f = Inr s'
     \<and> load_memory (disk s') = Inr (mem s')
     \<and> map task (work_log (mem s'))
         = [''topics'', ''post_1'', ''post_2'', ''post_3'', ''hashtags'', ''schedule'']
     \<and> map status (work_log (mem s'))
         = [''completed'', ''completed'', ''completed'', ''completed'', ''completed'',
            ''completed'']
     \<and> completed_tasks (mem s')
         = [''run:grow my newsletter:topics'', ''run:grow my newsletter:post_1'',
            ''run:grow my newsletter:post_2'', ''run:grow my newsletter:post_3'',
            ''run:grow my newsletter:hashtags'', ''run:grow my newsletter:schedule'']
     \<and> map asset_type (content_library (mem s'))
         = [''topics'', ''post_1'', ''post_2'', ''post_3'', ''hashtags'', ''schedule'']
     \<and> asset_data (content_library (mem s') ! 5)
         = Sched
             [\<lparr>day = ''Mon'', topic = ''Grow my newsletter: 3 mistakes to avoid''\<rparr>,
              \<lparr>day = ''Tue'', topic = ''Grow my newsletter: the step-by-step beginner roadmap''\<rparr>,
              \<lparr>day = ''Wed'', topic = ''Grow my newsletter: what I wish I knew earlier''\<rparr>,
              \<lparr>day = ''Thu'', topic = ''Grow my newsletter: tools and resources I actually use''\<rparr>,
              \<lparr>day = ''Fri'', topic = ''Grow my newsletter: quick wins you can do this week''\<rparr>]"
  by (rule newsletter_run [OF assms])

theorem fresh_run_six_witness:
  "load_memory NoFile = Inr empty_memory
   \<and> content_goal sample_request = ''Grow my newsletter''
   \<and> (\<exists>s'. run_system sample_env sample_request NoFile = Inr s'
     \<and> load_memory (disk s') = Inr (mem s')
     \<and> map task (work_log (mem s'))
         = [''topics'', ''post_1'', ''post_2'', ''post_3'', ''hashtags'', ''schedule'']
     \<and> map status (work_log (mem s'))
         = [''completed'', ''completed'', ''completed'', ''completed'', ''completed'',
            ''completed'']
     \<and> completed_tasks (mem s')
         = [''run:grow my newsletter:topics'', ''run:grow my newsletter:post_1'',
            ''run:grow my newsletter:post_2'', ''run:grow my newsletter:post_3'',
            ''run:grow my newsletter:hashtags'', ''run:grow my newsletter:schedule'']
     \<and> map asset_type (content_library (mem s'))
         = [''topics'', ''post_1'', ''post_2'', ''post_3'', ''hashtags'', ''schedule'']
     \<and> asset_data (content_library (mem s') ! 5)
         = Sched
             [\<lparr>day = ''Mon'', topic = ''Grow my newsletter: 3 mistakes to avoid''\<rparr>,
              \<lparr>day = ''Tue'', topic = ''Grow my newsletter: the step-by-step beginner roadmap''\<rparr>,
              \<lparr>day = ''Wed'', topic = ''Grow my newsletter: what I wish I knew earlier''\<rparr>,
              \<lparr>day = ''Thu'', topic = ''Grow my newsletter: tools and resources I actually use''\<rparr>,
              \<lparr>day = ''Fri'', topic = ''Grow my newsletter: quick wins you can do this week''\<rparr>])"
  by (intro conjI load_NoFile sample_goal
        fresh_run_six [OF load_NoFile sample_goal, of sample_env])

text \<open>
  The counts of the run on the fresh store: six keys and six assets, not five.
\<close>

theorem fresh_run_five_counterexample:
  "run_system sample_env sample_request NoFile = Inr first_run
   \<and> length (work_log (mem first_run)) = 6
   \<and> length (completed_tasks (mem first_run)) = 6
   \<and> length (content_library (mem first_run)) = 6
   \<and> length (completed_tasks (mem first_run)) \<noteq> 5
   \<and> length (content_library (mem first_run)) \<noteq> 5"
  by (simp add: first_run_facts(1) first_run_lengths)

section \<open>Steps that depend on the topics\<close>

text \<open>
  C3 (as the code has it).  In a run that passes the goal guardrail and in
  which the \<^verbatim>\<open>topics\<close> step is skipped (its completion key is stored), the
  run walks all six steps and appends one entry for each; each of the three
  draft steps and the schedule step appends a \<^verbatim>\<open>clarify\<close> entry when its own
  key is not stored, and a \<^verbatim>\<open>skipped\<close> entry when it is; the only asset the
  run can append is that of the hashtags step; and the draft and schedule
  steps are as done after the run as they were before it.
\<close>

theorem dependents_clarify_without_topics:
  assumes "load_memory f = Inr m"
    and "strip (content_goal rq) \<noteq> []"
    and "should_skip ''topics'' m (run_key (content_goal rq))"
  shows "\<exists>s' e1 e2 e3 e4 e5 e6 as.
           run_system E rq f = Inr s' \<and> load_memory (disk s') = Inr (mem s')
           \<and> work_log (mem s') = work_log m @ [e1, e2, e3, e4, e5, e6]
           \<and> map task [e1, e2, e3, e4, e5, e6]
                = [''topics'', ''post_1'', ''post_2'', ''post_3'', ''hashtags'', ''schedule'']
           \<and> status e1 = ''skipped''
           \<and> map status [e2, e3, e4, e6]
                = map (\<lambda>t. if should_skip t m (run_key (content_goal rq))
                            then ''skipped'' else ''clarify'')
                    [''post_1'', ''post_2'', ''post_3'', ''schedule'']
           \<and> content_library (mem s') = content_library m @ as
           \<and> (\<forall>a \<in> set as. asset_type a = ''hashtags'')
           \<and> map (\<lambda>t. should_skip t (mem s') (run_key (content_goal rq)))
                  [''post_1'', ''post_2'', ''post_3'', ''schedule'']
                = map (\<lambda>t. should_skip t m (run_key (content_goal rq)))
                    [''post_1'', ''post_2'', ''post_3'', ''schedule'']"
  by (rule run_without_topics [OF assms])

theorem dependents_clarify_without_topics_witness:
  "load_memory stored_file = Inr stored_memory
   \<and> strip (content_goal sample_request) \<noteq> []
   \<and> should_skip ''topics'' stored_memory (run_key (content_goal sample_request))
   \<and> (\<exists>s' e1 e2 e3 e4 e5 e6 as.
           run_system sample_env sample_request stored_file = Inr s'
           \<and> work_log (mem s') = work_log stored_memory @ [e1, e2, e3, e4, e5, e6]
           \<and> map task [e1, e2, e3, e4, e5, e6]
                = [''topics'', ''post_1'', ''post_2'', ''post_3'', ''hashtags'', ''schedule'']
           \<and> status e1 = ''skipped''
           \<and> map status [e2, e3, e4, e6] = [''clarify'', ''clarify'', ''clarify'', ''clarify'']
           \<and> content_library (mem s') = content_library stored_memory @ as
           \<and> list_all (\<lambda>a. asset_type a = ''hashtags'') as
           \<and> map (\<lambda>t. should_skip t (mem s') (run_key (content_goal sample_request)))
                  [''post_1'', ''post_2'', ''post_3'', ''schedule'']
                = [False, False, False, False])"
proof -
  from dependents_clarify_without_topics
         [OF load_stored_file sample_not_blank stored_topics_done, of sample_env]
  obtain s' e1 e2 e3 e4 e5 e6 as where r:
    "run_system sample_env sample_request stored_file = Inr s'"
    "work_log (mem s') = work_log stored_memory @ [e1, e2, e3, e4, e5, e6]"
    "map task [e1, e2, e3, e4, e5, e6]
       = [''topics'', ''post_1'', ''post_2'', ''post_3'', ''hashtags'', ''schedule'']"
    "status e1 = ''skipped''"
    "map status [e2, e3, e4, e6]
       = map (\<lambda>t. if should_skip t stored_memory (run_key (content_goal sample_request))
                   then ''skipped'' else ''clarify'')
           [''post_1'', ''post_2'', ''post_3'', ''schedule'']"
    "content_library (mem s') = content_library stored_memory @ as"
    "\<forall>a \<in> set as. asset_type a = ''hashtags''"
    "map (\<lambda>t. should_skip t (mem s') (run_key (content_goal sample_request)))
        [''post_1'', ''post_2'', ''post_3'', ''schedule'']
      = map (\<lambda>t. should_skip t stored_memory (run_key (content_goal sample_request)))
          [''post_1'', ''post_2'', ''post_3'', ''schedule'']"
    by (elim exE conjE)
  have st: "map status [e2, e3, e4, e6] = [''clarify'', ''clarify'', ''clarify'', ''clarify'']"
    using r(5) by (simp add: stored_dependents_open)
  have nd: "map (\<lambda>t. should_skip t (mem s') (run_key (content_goal sample_request)))
                  [''post_1'', ''post_2'', ''post_3'', ''schedule'']
                = [False, False, False, False]"
    using r(8) by (simp add: stored_dependents_open)
  have la: "list_all (\<lambda>a. asset_type a = ''hashtags'') as"
    using r(7) by (simp add: list_all_iff)
  have "\<exists>s' e1 e2 e3 e4 e5 e6 as.
           run_system sample_env sample_request stored_file = Inr s'
           \<and> work_log (mem s') = work_log stored_memory @ [e1, e2, e3, e4, e5, e6]
           \<and> map task [e1, e2, e3, e4, e5, e6]
                = [''topics'', ''post_1'', ''post_2'', ''post_3'', ''hashtags'', ''schedule'']
           \<and> status e1 = ''skipped''
           \<and> map status [e2, e3, e4, e6] = [''clarify'', ''clarify'', ''clarify'', ''clarify'']
           \<and> content_library (mem s') = content_library stored_memory @ as
           \<and> list_all (\<lambda>a. asset_type a = ''hashtags'') as
           \<and> map (\<lambda>t. should_skip t (mem s') (run_key (content_goal sample_request)))
                  [''post_1'', ''post_2'', ''post_3'', ''schedule'']
                = [False, False, False, False]"
    apply (rule exI [of _ s'])
    apply (rule exI [of _ e1], rule exI [of _ e2], rule exI [of _ e3])
    apply (rule exI [of _ e4], rule exI [of _ e5], rule exI [of _ e6], rule exI [of _ as])
    apply (intro conjI r(1) r(2) r(3) r(4) st r(6) la nd)
    done
  then show ?thesis
    by (intro conjI load_stored_file sample_not_blank stored_topics_done)
qed

text \<open>
  The second run of the sample goal: the \<^verbatim>\<open>topics\<close> step is skipped, and so are
  the draft and schedule steps; none of them asks for clarification.
\<close>

theorem dependents_skipped_counterexample:
  "run_system sample_env sample_request NoFile = Inr first_run
   \<and> run_system sample_env sample_request (disk first_run) = Inr second_run
   \<and> map task (new_entries (mem first_run) (mem second_run))
       = [''topics'', ''post_1'', ''post_2'', ''post_3'', ''hashtags'', ''schedule'']
   \<and> map status (new_entries (mem first_run) (mem second_run))
       = [''skipped'', ''skipped'', ''skipped'', ''skipped'', ''skipped'', ''skipped'']"
  by (intro conjI first_run_facts(1) second_run_facts)

theorem second_run_skips_witness:
  "load_memory NoFile = Inr empty_memory
   \<and> run_system sample_env sample_request NoFile = Inr first_run
   \<and> list_all is_completed (new_entries empty_memory (mem first_run))
   \<and> content_goal sample_request = content_goal sample_request
   \<and> (\<exists>s2. run_system sample_env sample_request (disk first_run) = Inr s2
           \<and> map status (new_entries (mem first_run) (mem s2)) = replicate 6 ''skipped''
           \<and> new_assets (mem first_run) (mem s2) = []
           \<and> completed_tasks (mem s2) = completed_tasks (mem first_run))"
proof -
  have h: "\<forall>e \<in> set (new_entries empty_memory (mem first_run)). status e = ''completed''"
    using first_run_all_completed by (simp add: first_run_new_entries)
  have la: "list_all is_completed (new_entries empty_memory (mem first_run))"
    using h by (simp add: list_all_iff is_completed_def)
  from second_run_skips [OF load_NoFile first_run_facts(1) h refl, of sample_env]
  have "\<exists>s2. run_system sample_env sample_request (disk first_run) = Inr s2
           \<and> map status (new_entries (mem first_run) (mem s2)) = replicate 6 ''skipped''
           \<and> new_assets (mem first_run) (mem s2) = []
           \<and> completed_tasks (mem s2) = completed_tasks (mem first_run)"
    by (elim exE conjE, intro exI conjI)
  then show ?thesis
    by (intro conjI load_NoFile first_run_facts(1) la refl)
qed

section \<open>Further concrete instances\<close>

theorem run_key_normalization_witness:
  "run_key ''Build Trust'' = ''run:build trust''
   \<and> run_key ''  build trust  '' = ''run:build trust''
   \<and> completed_key (run_key ''Build Trust'') ''post_1''
       = completed_key (run_key ''  build trust  '') ''post_1''"
proof -
  have a: "run_key ''Build Trust'' = ''run:build trust''"
    by code_simp
  from run_key_normalization [of "''Build Trust''"]
  have b: "run_key ''Build Trust'' = run_key ''  build trust  ''"
    and c: "completed_key (run_key ''Build Trust'') ''post_1''
       = completed_key (run_key ''  build trust  '') ''post_1''"
    by blast+
  from a b c show ?thesis by simp
qed

theorem load_memory_cases_witness:
  "load_memory stored_file = Inr stored_memory
   \<and> load_memory NotJSON = Inl JSONDecodeError
   \<and> load_memory NonObject = Inl AttributeError
   \<and> load_memory NoFile = Inr empty_memory"
proof -
  from load_memory_cases
    [of "\<lparr>doc_completed_tasks = Some [''run:grow my newsletter:topics''],
          doc_work_log = Some [stored_entry], doc_content_library = None\<rparr>"]
  show ?thesis
    by (auto simp: stored_file_def stored_memory_def empty_memory_def)
qed

theorem topic_lookup_in_range_witness:
  "length (tool_generate_topics ''Grow my newsletter'' ''busy founders'' ''direct'') = 5
   \<and> topic_index ''post_3''
       < length (tool_generate_topics ''Grow my newsletter'' ''busy founders'' ''direct'')
   \<and> run_system sample_env sample_request NoFile \<noteq> Inl IndexError"
  using topic_lookup_in_range
    [of "''Grow my newsletter''" "''busy founders''" "''direct''" "''post_3''"
        sample_request Map.empty sample_env NoFile]
  by blast

theorem completed_steps_balance_witness:
  "load_memory NoFile = Inr empty_memory
   \<and> run_system sample_env sample_request NoFile = Inr first_run
   \<and> length (new_assets empty_memory (mem first_run))
       = length (filter is_completed (new_entries empty_memory (mem first_run)))
   \<and> length (new_keys empty_memory (mem first_run))
       = length (filter is_completed (new_entries empty_memory (mem first_run)))
   \<and> length (new_keys empty_memory (mem first_run)) = 6"
proof -
  from completed_steps_balance [OF load_NoFile, of sample_env sample_request]
  obtain s' where r: "run_system sample_env sample_request NoFile = Inr s'"
    "length (new_assets empty_memory (mem s'))
       = length (filter is_completed (new_entries empty_memory (mem s')))"
    "length (new_keys empty_memory (mem s'))
       = length (filter is_completed (new_entries empty_memory (mem s')))"
    by (elim exE conjE)
  have fr: "s' = first_run"
    using r(1) first_run_facts(1) by simp
  have six: "length (new_keys empty_memory (mem first_run)) = 6"
    by (simp add: new_keys_def empty_memory_def first_run_lengths)
  show ?thesis
    using r(2,3) six unfolding fr
    by (intro conjI load_NoFile first_run_facts(1))
qed

lemma stored_loop_returns: "stored_loop = Inr (fst (projr stored_loop), snd (projr stored_loop))"
proof -
  from run_loop_known [OF workflow_known topics_ok_empty,
    where E=sample_env and rq=sample_request and rk="run_key (content_goal sample_request)"
      and s=stored_state]
  obtain s' outs' where eq: "stored_loop = Inr (s', outs')"
    unfolding stored_loop_def by (elim exE)
  have "projr stored_loop = (s', outs')"
    by (simp add: eq)
  then show ?thesis
    by (simp add: eq)
qed

theorem append_only_witness:
  "stored_loop = Inr (fst (projr stored_loop), snd (projr stored_loop))
   \<and> prefix [stored_entry] (work_log (mem (fst (projr stored_loop))))
   \<and> load_memory stored_file = Inr stored_memory
   \<and> (\<exists>f' m'. run_many two_runs stored_file = Inr f' \<and> load_memory f' = Inr m'
          \<and> prefix [stored_entry] (work_log m')
          \<and> 1 \<le> length (work_log m'))"
proof -
  note t = append_only [of sample_env sample_request "run_key (content_goal sample_request)"
      workflow stored_state Map.empty "fst (projr stored_loop)" "snd (projr stored_loop)"
      stored_file stored_memory two_runs]
  have lp: "run_loop sample_env sample_request (run_key (content_goal sample_request))
      workflow (stored_state, Map.empty)
      = Inr (fst (projr stored_loop), snd (projr stored_loop))"
    using stored_loop_returns by (simp add: stored_loop_def)
  from t lp have a: "prefix (work_log (mem stored_state))
      (work_log (mem (fst (projr stored_loop))))"
    by blast
  from t load_stored_file have b:
    "\<exists>f' m'. run_many two_runs stored_file = Inr f' \<and> load_memory f' = Inr m'
          \<and> prefix (work_log stored_memory) (work_log m')
          \<and> length (work_log stored_memory) \<le> length (work_log m')"
    by blast
  have wl: "work_log stored_memory = [stored_entry]" "work_log (mem stored_state) = [stored_entry]"
    by (simp_all add: stored_memory_def stored_state_def)
  from a b show ?thesis
    unfolding wl using stored_loop_returns load_stored_file by simp
qed

end
